theory Spec2Isabelle
  imports Complex_Main "HOL-Library.Log_Nat"
begin

section \<open>JavaScript values used by the image editor\<close>

text \<open>
  A JavaScript \<open>number\<close> is an IEEE double. Every finite double is a rational number, and
  the two built-ins the editor applies to coordinates (\<open>toFixed\<close> and \<open>JSON.stringify\<close>)
  are defined by ECMAScript on the exact mathematical value, so a finite number is modelled
  by that value. Both zeros are \<open>Finite 0\<close>: they are \<open>===\<close>-equal, \<open>toFixed\<close> prints both
  without a sign and \<open>JSON.stringify\<close> prints both as \<open>0\<close>.
\<close>

datatype number = Finite rat | NaN | PosInfinity | NegInfinity

text \<open>The decimal digits of a natural number, as \<open>Number::toString\<close> prints an integer.\<close>

definition digit_char :: "nat \<Rightarrow> char" where
  "digit_char d = ''0123456789'' ! d"

fun digits :: "nat \<Rightarrow> string" where
  "digits n = (if n < 10 then [digit_char n] else digits (n div 10) @ [digit_char (n mod 10)])"

declare digits.simps [simp del]

text \<open>
  \<open>Number.prototype.toFixed(f)\<close> (ECMAScript 21.1.3.3), for \<open>0 \<le> f \<le> 100\<close>; the editor
  only calls it with \<open>f = 4\<close>. A non-finite number prints as its name. Otherwise the sign
  is split off; a magnitude of at least \<open>10^21\<close> is printed by \<open>Number::toString\<close>, which
  is the parameter \<open>toStr\<close> (the shortest decimal that reads back as the same double);
  below that, \<open>n\<close> is the integer nearest to \<open>x * 10^f\<close> (the larger one on a tie), printed
  with at least \<open>f + 1\<close> digits and a point before the last \<open>f\<close>.
\<close>

definition toFixed :: "(rat \<Rightarrow> string) \<Rightarrow> number \<Rightarrow> nat \<Rightarrow> string" where
  "toFixed toStr v f =
     (case v of
        NaN \<Rightarrow> ''NaN''
      | PosInfinity \<Rightarrow> ''Infinity''
      | NegInfinity \<Rightarrow> ''-Infinity''
      | Finite r \<Rightarrow>
          (let s = (if r < 0 then ''-'' else '''');
               x = \<bar>r\<bar>
           in if 10 ^ 21 \<le> x then s @ toStr x
              else
                (let n = nat \<lfloor>x * 10 ^ f + 1 / 2\<rfloor>;
                     m = digits n;
                     m = (if f \<noteq> 0
                          then (let k = length m;
                                    m = (if k \<le> f then replicate (f + 1 - k) (CHR ''0'') @ m else m);
                                    k = (if k \<le> f then f + 1 else k)
                                in take (k - f) m @ ''.'' @ drop (k - f) m)
                          else m)
                 in s @ m)))"

subsection \<open>Detected regions\<close>

text \<open>
  \<open>DetectedObject\<close> of \<open>services/geminiService.ts\<close>. The interface declares the four
  coordinates of \<open>boundingBox\<close>; a JavaScript object also has an order of its properties
  (the order in which \<open>JSON.parse\<close> met them in the response), which \<open>JSON.stringify\<close>
  follows. \<open>keys\<close> is that order, \<open>Object.keys(boundingBox)\<close>.
\<close>

datatype coord = X_min | Y_min | X_max | Y_max

record boundingBox =
  x_min :: number
  y_min :: number
  x_max :: number
  y_max :: number
  keys :: "coord list"

record DetectedObject =
  label :: string
  boundingBox :: boundingBox

fun coord_name :: "coord \<Rightarrow> string" where
  "coord_name X_min = ''x_min''"
| "coord_name Y_min = ''y_min''"
| "coord_name X_max = ''x_max''"
| "coord_name Y_max = ''y_max''"

fun coord_value :: "boundingBox \<Rightarrow> coord \<Rightarrow> number" where
  "coord_value b X_min = x_min b"
| "coord_value b Y_min = y_min b"
| "coord_value b X_max = x_max b"
| "coord_value b Y_max = y_max b"

text \<open>\<open>Array.prototype.join\<close>.\<close>

fun join :: "string \<Rightarrow> string list \<Rightarrow> string" where
  "join sep [] = []"
| "join sep [x] = x"
| "join sep (x # y # ys) = x @ sep @ join sep (y # ys)"

text \<open>
  \<open>JSON.stringify\<close> of a number: a finite one by \<open>Number::toString\<close>, any other as
  \<open>null\<close>; and of a bounding box: its properties in their own order, each as
  \<open>"name":value\<close>, separated by commas, in braces.
\<close>

fun stringify_number :: "(rat \<Rightarrow> string) \<Rightarrow> number \<Rightarrow> string" where
  "stringify_number toStr (Finite r) = toStr r"
| "stringify_number toStr v = ''null''"

definition stringify_property :: "(rat \<Rightarrow> string) \<Rightarrow> boundingBox \<Rightarrow> coord \<Rightarrow> string" where
  "stringify_property toStr b c =
     [CHR 0x22] @ coord_name c @ [CHR 0x22] @ '':'' @ stringify_number toStr (coord_value b c)"

definition JSON_stringify :: "(rat \<Rightarrow> string) \<Rightarrow> boundingBox \<Rightarrow> string" where
  "JSON_stringify toStr b = ''{'' @ join '','' (map (stringify_property toStr b) (keys b)) @ ''}''"

subsection \<open>Region equality and the selection set (\<open>App.tsx\<close>)\<close>

definition areObjectsEqual :: "(rat \<Rightarrow> string) \<Rightarrow> DetectedObject \<Rightarrow> DetectedObject \<Rightarrow> bool" where
  "areObjectsEqual toStr objA objB \<longleftrightarrow>
     label objA = label objB \<and>
     JSON_stringify toStr (boundingBox objA) = JSON_stringify toStr (boundingBox objB)"

text \<open>The state update of \<open>handleObjectSelect\<close>: \<open>some\<close>, \<open>filter\<close> and the spread.\<close>

definition handleObjectSelect ::
  "(rat \<Rightarrow> string) \<Rightarrow> DetectedObject \<Rightarrow> DetectedObject list \<Rightarrow> DetectedObject list" where
  "handleObjectSelect toStr object prevSelected =
     (let isSelected = list_ex (\<lambda>obj. areObjectsEqual toStr obj object) prevSelected
      in if isSelected
         then filter (\<lambda>obj. \<not> areObjectsEqual toStr obj object) prevSelected
         else prevSelected @ [object])"

subsection \<open>The generation backend (\<open>services/geminiService.ts\<close>)\<close>

text \<open>
  What \<open>ai.models.generateContent\<close> resolves to, as far as \<open>editImage\<close> and
  \<open>generateImageFromPrompt\<close> read it. Every optional field of the SDK's response is an
  \<open>option\<close>, \<open>None\<close> for \<open>undefined\<close>.
\<close>

record inlineData =
  data :: "string option"

record part =
  part_inlineData :: "inlineData option"

record content =
  parts :: "part list option"

record candidate =
  candidate_content :: "content option"

record response =
  candidates :: "candidate list option"

text \<open>
  The SDK call either rejects (a transport or API failure) or resolves to a response. The
  call itself, \<open>ai.models.generateContent\<close>, is a parameter \<open>generateContent\<close> of the
  functions that make it: a function from what they send to what the call settles to.
\<close>

datatype 'a promise = Rejected | Resolved 'a

text \<open>
  What \<open>editImage\<close> sends: the image data and its type, as inline data, and the prompt
  (the model and the response modality are fixed).
\<close>

record request =
  base64ImageData :: "string option"
  mimeType :: string
  request_prompt :: string

text \<open>
  A thrown value: an \<open>Error\<close> with its message; the \<open>TypeError\<close> that the runtime raises on
  reading a property of \<open>undefined\<close> or \<open>null\<close> or on iterating \<open>undefined\<close>, and the
  \<open>SyntaxError\<close> of \<open>JSON.parse\<close>, both instances of \<open>Error\<close> with the runtime's message;
  or a value that is not an \<open>Error\<close>.
\<close>

datatype thrown = Error string | TypeError string | SyntaxError string | NotAnError

text \<open>The \<open>for\<close> loop over the parts: the first part with non-empty inline data.\<close>

fun find_image :: "part list \<Rightarrow> string option" where
  "find_image [] = None"
| "find_image (p # ps) =
     (case part_inlineData p of
        Some d \<Rightarrow> (case data d of
                     Some img \<Rightarrow> if img \<noteq> [] then Some img else find_image ps
                   | None \<Rightarrow> find_image ps)
      | None \<Rightarrow> find_image ps)"

text \<open>The body of the \<open>try\<close> block of \<open>editImage\<close>, after the call has resolved.\<close>

definition editImage_try :: "response \<Rightarrow> thrown + string" where
  "editImage_try resp =
     (case candidates resp of
        None \<Rightarrow> Inl (Error ''API returned no candidates.'')
      | Some [] \<Rightarrow> Inl (Error ''API returned no candidates.'')
      | Some (candidate # _) \<Rightarrow>
          (case candidate_content candidate of
             None \<Rightarrow> Inl (TypeError ''Cannot read properties of undefined (reading 'parts')'')
           | Some c \<Rightarrow>
               (case parts c of
                  None \<Rightarrow> Inl (TypeError ''undefined is not iterable'')
                | Some ps \<Rightarrow>
                    (case find_image ps of
                       Some img \<Rightarrow> Inr img
                     | None \<Rightarrow> Inl (Error ''No image data found in the API response.'')))))"

definition edit_failed :: string where
  "edit_failed = ''Failed to edit image. The model may not be able to fulfill this request. Please try a different prompt or image.''"

text \<open>\<open>editImage\<close>: whatever is thrown inside \<open>try\<close> is replaced by one \<open>Error\<close>.\<close>

definition editImage ::
  "(request \<Rightarrow> response promise) \<Rightarrow> string option \<Rightarrow> string \<Rightarrow> string \<Rightarrow> thrown + string" where
  "editImage generateContent imageData type prompt =
     (case generateContent
             \<lparr> base64ImageData = imageData, mimeType = type, request_prompt = prompt \<rparr> of
        Rejected \<Rightarrow> Inl (Error edit_failed)
      | Resolved resp \<Rightarrow>
          (case editImage_try resp of
             Inl _ \<Rightarrow> Inl (Error edit_failed)
           | Inr img \<Rightarrow> Inr img))"

text \<open>\<open>generateImageFromPrompt\<close>: the same reading of the response, with its own messages.\<close>

definition generateImageFromPrompt_try :: "response \<Rightarrow> thrown + string" where
  "generateImageFromPrompt_try resp =
     (case candidates resp of
        None \<Rightarrow> Inl (Error ''API returned no candidates for image generation.'')
      | Some [] \<Rightarrow> Inl (Error ''API returned no candidates for image generation.'')
      | Some (candidate # _) \<Rightarrow>
          (case candidate_content candidate of
             None \<Rightarrow> Inl (TypeError ''Cannot read properties of undefined (reading 'parts')'')
           | Some c \<Rightarrow>
               (case parts c of
                  None \<Rightarrow> Inl (TypeError ''undefined is not iterable'')
                | Some ps \<Rightarrow>
                    (case find_image ps of
                       Some img \<Rightarrow> Inr img
                     | None \<Rightarrow> Inl (Error ''No image data found in the generation response.'')))))"

definition generate_failed :: string where
  "generate_failed = ''Failed to generate image. The model may not be able to fulfill this request.''"

definition generateImageFromPrompt ::
  "(string \<Rightarrow> response promise) \<Rightarrow> string \<Rightarrow> thrown + string" where
  "generateImageFromPrompt generateContent prompt =
     (case generateContent prompt of
        Rejected \<Rightarrow> Inl (Error generate_failed)
      | Resolved resp \<Rightarrow>
          (case generateImageFromPrompt_try resp of
             Inl _ \<Rightarrow> Inl (Error generate_failed)
           | Inr img \<Rightarrow> Inr img))"

subsection \<open>The detection backend (\<open>services/geminiService.ts\<close>)\<close>

text \<open>
  A value that \<open>JSON.parse\<close> returns. An object is the list of its properties, each name
  once.
\<close>

datatype json =
  JNull | JBool bool | JNumber number | JString string | JArray "json list"
  | JObject "(string \<times> json) list"

text \<open>
  The \<open>text\<close> of the response to a detection request: \<open>None\<close> when the getter returns
  \<open>undefined\<close>.
\<close>

record text_response =
  response_text :: "string option"

text \<open>
  \<open>String.prototype.trim\<close>. A \<open>char\<close> stands for a code unit below 256; among these the
  white space and line terminators of ECMAScript are tab, line feed, vertical tab, form
  feed, carriage return, space and no-break space.
\<close>

definition is_space :: "char \<Rightarrow> bool" where
  "is_space c \<longleftrightarrow> c \<in> set [CHR 0x09, CHR 0x0A, CHR 0x0B, CHR 0x0C, CHR 0x0D, CHR 0x20, CHR 0xA0]"

definition trim :: "string \<Rightarrow> string" where
  "trim s = rev (dropWhile is_space (rev (dropWhile is_space s)))"

text \<open>
  Reading \<open>result.objects\<close>: \<open>null\<close> has no properties and the read throws; an object
  yields the property or \<open>undefined\<close>; a boolean, a number, a string and an array have no
  property of that name.
\<close>

fun objects_of :: "json \<Rightarrow> thrown + json option" where
  "objects_of JNull = Inl (TypeError ''Cannot read properties of null (reading 'objects')'')"
| "objects_of (JObject ps) = Inr (map_of ps ''objects'')"
| "objects_of v = Inr None"

text \<open>The truth value that \<open>||\<close> tests.\<close>

fun truthy :: "json \<Rightarrow> bool" where
  "truthy JNull \<longleftrightarrow> False"
| "truthy (JBool b) \<longleftrightarrow> b"
| "truthy (JNumber (Finite r)) \<longleftrightarrow> r \<noteq> 0"
| "truthy (JNumber NaN) \<longleftrightarrow> False"
| "truthy (JNumber v) \<longleftrightarrow> True"
| "truthy (JString s) \<longleftrightarrow> s \<noteq> []"
| "truthy (JArray vs) \<longleftrightarrow> True"
| "truthy (JObject ps) \<longleftrightarrow> True"

text \<open>What a detection call sends: the image as inline data, and the instruction.\<close>

record detection_request =
  image_data :: "string option"
  image_type :: string
  instruction :: string

text \<open>
  The body of the \<open>try\<close> block of \<open>detectObjects\<close> and of \<open>detectWatermarkText\<close>, which
  differ in the instruction they send and in their messages only, after the call has
  resolved. \<open>JSON.parse\<close> is the parameter \<open>parse\<close>: \<open>None\<close> when it throws its
  \<open>SyntaxError\<close>. The value returned is \<open>result.objects\<close> as it is, unchecked; the empty
  list is \<open>JArray []\<close>.
\<close>

definition detection_try :: "(string \<Rightarrow> json option) \<Rightarrow> text_response \<Rightarrow> thrown + json" where
  "detection_try parse resp =
     (case response_text resp of
        None \<Rightarrow> Inl (TypeError ''Cannot read properties of undefined (reading 'trim')'')
      | Some t \<Rightarrow>
          (let jsonText = trim t
           in if jsonText = [] then Inr (JArray [])
              else (case parse jsonText of
                      None \<Rightarrow> Inl (SyntaxError ''Unexpected token'')
                    | Some result \<Rightarrow>
                        (case objects_of result of
                           Inl e \<Rightarrow> Inl e
                         | Inr None \<Rightarrow> Inr (JArray [])
                         | Inr (Some objects) \<Rightarrow>
                             if truthy objects then Inr objects else Inr (JArray [])))))"

definition detect_objects_failed :: string where
  "detect_objects_failed = ''Failed to detect objects in the image. The model may not have been able to identify any distinct items.''"

definition detect_text_failed :: string where
  "detect_text_failed = ''Failed to detect watermark text in the image. The model may not have been able to identify any.''"

definition detectObjects ::
  "(detection_request \<Rightarrow> text_response promise) \<Rightarrow> (string \<Rightarrow> json option) \<Rightarrow>
     string option \<Rightarrow> string \<Rightarrow> thrown + json" where
  "detectObjects generateContent parse imageData type =
     (case generateContent
             \<lparr> image_data = imageData, image_type = type,
               instruction = ''Identify all distinct objects in the image and provide their labels and bounding boxes. Be as precise as possible.'' \<rparr> of
        Rejected \<Rightarrow> Inl (Error detect_objects_failed)
      | Resolved resp \<Rightarrow>
          (case detection_try parse resp of
             Inl _ \<Rightarrow> Inl (Error detect_objects_failed)
           | Inr objects \<Rightarrow> Inr objects))"

definition detectWatermarkText ::
  "(detection_request \<Rightarrow> text_response promise) \<Rightarrow> (string \<Rightarrow> json option) \<Rightarrow>
     string option \<Rightarrow> string \<Rightarrow> thrown + json" where
  "detectWatermarkText generateContent parse imageData type =
     (case generateContent
             \<lparr> image_data = imageData, image_type = type,
               instruction = ''Identify only text that appears to be a watermark or is digitally overlaid on the image. Do not identify text that is part of the original photo (e.g., text on a book page or a sign). Provide a label (the text itself) and a precise bounding box for each piece of identified text.'' \<rparr> of
        Rejected \<Rightarrow> Inl (Error detect_text_failed)
      | Resolved resp \<Rightarrow>
          (case detection_try parse resp of
             Inl _ \<Rightarrow> Inl (Error detect_text_failed)
           | Inr objects \<Rightarrow> Inr objects))"

subsection \<open>The editor's state (\<open>App.tsx\<close>)\<close>

datatype PresetKey = vintageFilter | removeText | blueBg | sketch | dramatic

text \<open>The \<open>prompt\<close> field of \<open>EDIT_PRESETS\<close>.\<close>

fun preset_prompt :: "PresetKey \<Rightarrow> string" where
  "preset_prompt vintageFilter = ''Add a retro, vintage filter with warm tones''"
| "preset_prompt removeText = ''Remove any obvious watermarks or overlaid text from the image. Preserve text that is part of the original scene, like text on books or signs.''"
| "preset_prompt blueBg = ''Change the background to solid bright blue, keep the main object''"
| "preset_prompt sketch = ''Convert to black and white pencil sketch style''"
| "preset_prompt dramatic = ''Add dramatic, cinematic lighting effect''"

text \<open>\<open>ImageState\<close>: the data URI and the MIME type of the file.\<close>

record ImageState =
  src :: string
  file_type :: string

datatype BgMode = upload | generate

record App =
  image :: "ImageState option"
  prompt :: string
  resultImage :: "string option"
  isLoading :: bool
  error :: "string option"
  activePreset :: "PresetKey option"
  detectedObjects :: "DetectedObject list"
  selectedObjects :: "DetectedObject list"
  objectImage :: "ImageState option"
  backgroundImage :: "ImageState option"
  backgroundPrompt :: string
  compositorBgMode :: BgMode
  generatedBackground :: "string option"
  isGeneratingBg :: bool

text \<open>The state of the first render.\<close>

definition initial :: App where
  "initial = \<lparr> image = None, prompt = [], resultImage = None, isLoading = False, error = None,
     activePreset = None, detectedObjects = [], selectedObjects = [], objectImage = None,
     backgroundImage = None,
     backgroundPrompt = ''A photorealistic image of a beautiful beach at sunset'',
     compositorBgMode = generate, generatedBackground = None, isGeneratingBg = False \<rparr>"

text \<open>\<open>String.prototype.split(',')\<close> and the read of element 1.\<close>

fun split_comma :: "string \<Rightarrow> string \<Rightarrow> string list" where
  "split_comma acc [] = [acc]"
| "split_comma acc (c # cs) =
     (if c = CHR '','' then acc # split_comma [] cs else split_comma (acc @ [c]) cs)"

definition element :: "'a list \<Rightarrow> nat \<Rightarrow> 'a option" where
  "element xs i = (if i < length xs then Some (xs ! i) else None)"

text \<open>
  \<open>handleGenerate\<close> up to its \<open>await\<close>: either the guard fails and only the error is set,
  or the state becomes pending and \<open>editImage\<close> is called with the three arguments
  returned (as a \<open>request\<close>).
\<close>

definition handleGenerate_start :: "string option \<Rightarrow> App \<Rightarrow> App \<times> request option" where
  "handleGenerate_start promptOverride s =
     (let currentPrompt = (case promptOverride of
                             Some p \<Rightarrow> if p \<noteq> [] then p else prompt s
                           | None \<Rightarrow> prompt s)
      in case image s of
           None \<Rightarrow> (s\<lparr>error := Some ''Please upload an image and provide a prompt.''\<rparr>, None)
         | Some img \<Rightarrow>
             if currentPrompt = []
             then (s\<lparr>error := Some ''Please upload an image and provide a prompt.''\<rparr>, None)
             else (s\<lparr>isLoading := True, error := None, resultImage := None\<rparr>,
                   Some \<lparr> base64ImageData = element (split_comma [] (src img)) 1,
                          mimeType = file_type img,
                          request_prompt = currentPrompt \<rparr>))"

text \<open>\<open>handleGenerate\<close> after the \<open>await\<close>: \<open>try\<close>, \<open>catch\<close> and \<open>finally\<close>.\<close>

definition handleGenerate_settle :: "thrown + string \<Rightarrow> App \<Rightarrow> App" where
  "handleGenerate_settle outcome s =
     (let s = (case outcome of
                 Inr editedImageBase64 \<Rightarrow>
                   s\<lparr>resultImage := Some (''data:image/png;base64,'' @ editedImageBase64)\<rparr>
               | Inl (Error message) \<Rightarrow> s\<lparr>error := Some message\<rparr>
               | Inl (TypeError message) \<Rightarrow> s\<lparr>error := Some message\<rparr>
               | Inl (SyntaxError message) \<Rightarrow> s\<lparr>error := Some message\<rparr>
               | Inl NotAnError \<Rightarrow> s\<lparr>error := Some ''An unknown error occurred.''\<rparr>)
      in s\<lparr>isLoading := False, activePreset := None\<rparr>)"

text \<open>
  One whole run of \<open>handleGenerate\<close> against a backend \<open>ai\<close>, with no other handler running
  while it awaits: the states it passes through, in order, and the calls of \<open>editImage\<close> it
  made. (The run among other handlers is \<open>handleGenerate_interleaved\<close> below.)
\<close>

definition handleGenerate ::
  "(request \<Rightarrow> response promise) \<Rightarrow> string option \<Rightarrow> App \<Rightarrow> App list \<times> request list" where
  "handleGenerate ai promptOverride s =
     (case handleGenerate_start promptOverride s of
        (s1, None) \<Rightarrow> ([s1], [])
      | (s1, Some req) \<Rightarrow>
          ([s1, handleGenerate_settle
                  (editImage ai (base64ImageData req) (mimeType req) (request_prompt req)) s1],
           [req]))"

text \<open>
  \<open>handleFileChange\<close>: \<open>file\<close> is the MIME type of the chosen file, if one was chosen, and
  \<open>read\<close> what \<open>fileToBase64\<close> settles to.
\<close>

definition handleFileChange :: "string option \<Rightarrow> string promise \<Rightarrow> App \<Rightarrow> App" where
  "handleFileChange file read s =
     (case file of
        None \<Rightarrow> s
      | Some ftype \<Rightarrow>
          (case read of
             Resolved base64Src \<Rightarrow>
               s\<lparr>image := Some \<lparr> src = base64Src, file_type = ftype \<rparr>, resultImage := None,
                 error := None, detectedObjects := [], selectedObjects := []\<rparr>
           | Rejected \<Rightarrow> s\<lparr>error := Some ''Failed to read the image file.''\<rparr>))"

definition clearImage :: "App \<Rightarrow> App" where
  "clearImage s =
     s\<lparr>image := None, resultImage := None, error := None, detectedObjects := [],
       selectedObjects := []\<rparr>"

text \<open>The \<open>onChange\<close> of the prompt's text area.\<close>

definition setPrompt :: "string \<Rightarrow> App \<Rightarrow> App" where
  "setPrompt p s = s\<lparr>prompt := p\<rparr>"

text \<open>
  \<open>handleGenerateBackground\<close>, in two pieces: up to the \<open>await\<close> (with the prompt it sends to
  \<open>generateImageFromPrompt\<close>), and after it, on the state it finds then.
\<close>

definition handleGenerateBackground_start :: "App \<Rightarrow> App \<times> string option" where
  "handleGenerateBackground_start s =
     (if backgroundPrompt s = []
      then (s\<lparr>error := Some ''Please enter a prompt for the background.''\<rparr>, None)
      else (s\<lparr>isGeneratingBg := True, error := None\<rparr>, Some (backgroundPrompt s)))"

definition handleGenerateBackground_settle :: "thrown + string \<Rightarrow> App \<Rightarrow> App" where
  "handleGenerateBackground_settle outcome s =
     (let s = (case outcome of
                 Inr generatedBase64 \<Rightarrow>
                   s\<lparr>generatedBackground := Some (''data:image/png;base64,'' @ generatedBase64),
                     backgroundImage := None\<rparr>
               | Inl (Error message) \<Rightarrow> s\<lparr>error := Some message\<rparr>
               | Inl (TypeError message) \<Rightarrow> s\<lparr>error := Some message\<rparr>
               | Inl (SyntaxError message) \<Rightarrow> s\<lparr>error := Some message\<rparr>
               | Inl NotAnError \<Rightarrow> s\<lparr>error := Some ''Failed to generate background.''\<rparr>)
      in s\<lparr>isGeneratingBg := False\<rparr>)"

text \<open>
  The two uploads of the compositor. Neither has a \<open>catch\<close>: when \<open>fileToBase64\<close> rejects,
  nothing is set.
\<close>

definition handleObjectImageChange :: "string option \<Rightarrow> string promise \<Rightarrow> App \<Rightarrow> App" where
  "handleObjectImageChange file read s =
     (case file of
        None \<Rightarrow> s
      | Some ftype \<Rightarrow>
          (case read of
             Resolved base64Src \<Rightarrow> s\<lparr>objectImage := Some \<lparr> src = base64Src, file_type = ftype \<rparr>\<rparr>
           | Rejected \<Rightarrow> s))"

definition handleBackgroundImageChange :: "string option \<Rightarrow> string promise \<Rightarrow> App \<Rightarrow> App" where
  "handleBackgroundImageChange file read s =
     (case file of
        None \<Rightarrow> s
      | Some ftype \<Rightarrow>
          (case read of
             Resolved base64Src \<Rightarrow>
               s\<lparr>backgroundImage := Some \<lparr> src = base64Src, file_type = ftype \<rparr>,
                 generatedBackground := None\<rparr>
           | Rejected \<Rightarrow> s))"

subsection \<open>What can run while \<open>handleGenerate\<close> awaits (\<open>App.tsx\<close>)\<close>

text \<open>
  While \<open>isLoading\<close> is set, the JSX disables Detect Objects, Detect Text, Isolate, Remove,
  Translate, the quick actions, Composite Images, the prompt's text area and Generate
  (each has \<open>isLoading\<close> in its \<open>disabled\<close>). What stays enabled, and so can run between the
  \<open>await\<close> of \<open>handleGenerate\<close> and its completion, are the events below: the main
  image's file read (\<open>handleFileChange\<close> settling) and its clear button, the selection of a
  region, the compositor's two uploads and clear buttons, its mode buttons, its prompt,
  the clear button of the generated background, and Generate Background (disabled by
  \<open>isGeneratingBg\<close> only), which starts and later settles. No condition is put on when an
  event may occur.
\<close>

datatype event =
    FileChange "string option" "string promise"
  | ClearImage
  | ObjectSelect DetectedObject
  | ObjectImageChange "string option" "string promise"
  | ObjectImageClear
  | BackgroundImageChange "string option" "string promise"
  | BackgroundImageClear
  | CompositorBgMode BgMode
  | BackgroundPrompt string
  | GeneratedBackgroundClear
  | GenerateBackground
  | GenerateBackgroundSettled "thrown + string"

fun handler :: "(rat \<Rightarrow> string) \<Rightarrow> event \<Rightarrow> App \<Rightarrow> App" where
  "handler toStr (FileChange file read) s = handleFileChange file read s"
| "handler toStr ClearImage s = clearImage s"
| "handler toStr (ObjectSelect object) s =
     s\<lparr>selectedObjects := handleObjectSelect toStr object (selectedObjects s)\<rparr>"
| "handler toStr (ObjectImageChange file read) s = handleObjectImageChange file read s"
| "handler toStr ObjectImageClear s = s\<lparr>objectImage := None\<rparr>"
| "handler toStr (BackgroundImageChange file read) s = handleBackgroundImageChange file read s"
| "handler toStr BackgroundImageClear s = s\<lparr>backgroundImage := None\<rparr>"
| "handler toStr (CompositorBgMode m) s = s\<lparr>compositorBgMode := m\<rparr>"
| "handler toStr (BackgroundPrompt p) s = s\<lparr>backgroundPrompt := p\<rparr>"
| "handler toStr GeneratedBackgroundClear s = s\<lparr>generatedBackground := None\<rparr>"
| "handler toStr GenerateBackground s = fst (handleGenerateBackground_start s)"
| "handler toStr (GenerateBackgroundSettled outcome) s = handleGenerateBackground_settle outcome s"

text \<open>The states of the wait: the pending state, then the state after each event.\<close>

fun waiting :: "(rat \<Rightarrow> string) \<Rightarrow> event list \<Rightarrow> App \<Rightarrow> App list" where
  "waiting toStr [] s = [s]"
| "waiting toStr (e # es) s = s # waiting toStr es (handler toStr e s)"

text \<open>
  A run of \<open>handleGenerate\<close> during whose \<open>await\<close> the events occur: the request is built
  from the state at the start (the closure of the callback), and the setters after the
  \<open>await\<close> act on the state the events have left.
\<close>

definition handleGenerate_interleaved ::
  "(rat \<Rightarrow> string) \<Rightarrow> (request \<Rightarrow> response promise) \<Rightarrow> string option \<Rightarrow> event list \<Rightarrow> App
     \<Rightarrow> App list \<times> request list" where
  "handleGenerate_interleaved toStr ai promptOverride events s =
     (case handleGenerate_start promptOverride s of
        (s1, None) \<Rightarrow> ([s1], [])
      | (s1, Some req) \<Rightarrow>
          (waiting toStr events s1
             @ [handleGenerate_settle
                  (editImage ai (base64ImageData req) (mimeType req) (request_prompt req))
                  (last (waiting toStr events s1))],
           [req]))"

subsection \<open>Prompt synthesis (\<open>App.tsx\<close>)\<close>

text \<open>\<open>Array.prototype.map\<close> with the index as second argument.\<close>

definition mapi :: "('a \<Rightarrow> nat \<Rightarrow> 'b) \<Rightarrow> 'a list \<Rightarrow> 'b list" where
  "mapi f xs = map (\<lambda>(x, i). f x i) (zip xs [0..<length xs])"

text \<open>
  \<open>handleQuickEdit\<close>: two guards, the prompt of the preset around the selected region, then
  \<open>setActivePreset\<close> and \<open>handleGenerate\<close>.
\<close>

definition quickEdit_prompt :: "(rat \<Rightarrow> string) \<Rightarrow> PresetKey \<Rightarrow> DetectedObject \<Rightarrow> string" where
  "quickEdit_prompt toStr presetKey selectedObject =
     (let bboxString =
            ''['' @ toFixed toStr (y_min (boundingBox selectedObject)) 4 @ '', ''
                @ toFixed toStr (x_min (boundingBox selectedObject)) 4 @ '', ''
                @ toFixed toStr (y_max (boundingBox selectedObject)) 4 @ '', ''
                @ toFixed toStr (x_max (boundingBox selectedObject)) 4 @ '']''
      in if presetKey = removeText
         then ''Remove the selected text '' @ [CHR 0x27] @ label selectedObject @ [CHR 0x27]
              @ '' located within the normalized bounding box (y_min, x_min, y_max, x_max) ''
              @ bboxString @ ''. Inpaint the area naturally to match the surroundings.''
         else preset_prompt presetKey @ ''. The main subject for this operation is the selected ''
              @ [CHR 0x27] @ label selectedObject @ [CHR 0x27]
              @ '' located within the normalized bounding box (y_min, x_min, y_max, x_max) ''
              @ bboxString
              @ ''. Focus the effect on this object or the area around it as appropriate.'')"

definition handleQuickEdit ::
  "(rat \<Rightarrow> string) \<Rightarrow> PresetKey \<Rightarrow> App \<Rightarrow> App \<times> request option" where
  "handleQuickEdit toStr presetKey s =
     (if image s = None then (s\<lparr>error := Some ''Please upload an image first.''\<rparr>, None)
      else if length (selectedObjects s) \<noteq> 1
      then (s\<lparr>error := Some ''Please select exactly one object for this action.''\<rparr>, None)
      else handleGenerate_start (Some (quickEdit_prompt toStr presetKey (selectedObjects s ! 0)))
             (s\<lparr>activePreset := Some presetKey\<rparr>))"

datatype action = isolate | remove

definition isolate_prompt :: "(rat \<Rightarrow> string) \<Rightarrow> DetectedObject \<Rightarrow> string" where
  "isolate_prompt toStr obj =
     (let bboxString =
            ''['' @ toFixed toStr (y_min (boundingBox obj)) 4 @ '', ''
                @ toFixed toStr (x_min (boundingBox obj)) 4 @ '', ''
                @ toFixed toStr (y_max (boundingBox obj)) 4 @ '', ''
                @ toFixed toStr (x_max (boundingBox obj)) 4 @ '']''
      in ''Isolate the '' @ label obj
         @ '' located within the bounding box (y_min, x_min, y_max, x_max) '' @ bboxString
         @ ''. Make the background transparent.'')"

definition remove_entry :: "(rat \<Rightarrow> string) \<Rightarrow> DetectedObject \<Rightarrow> nat \<Rightarrow> string" where
  "remove_entry toStr obj i =
     digits (i + 1) @ ''. The object '' @ [CHR 0x27] @ label obj @ [CHR 0x27]
     @ '' located within bounding box [''
     @ toFixed toStr (y_min (boundingBox obj)) 4 @ '', ''
     @ toFixed toStr (x_min (boundingBox obj)) 4 @ '', ''
     @ toFixed toStr (y_max (boundingBox obj)) 4 @ '', ''
     @ toFixed toStr (x_max (boundingBox obj)) 4 @ '']''"

definition remove_prompt :: "(rat \<Rightarrow> string) \<Rightarrow> DetectedObject list \<Rightarrow> string" where
  "remove_prompt toStr selected =
     (let objectsToRemove = join [CHR 0x0A] (mapi (remove_entry toStr) selected)
      in ''Remove the following objects from the image and inpaint their areas naturally to match the surroundings:''
         @ [CHR 0x0A] @ objectsToRemove)"

definition handleObjectAction ::
  "(rat \<Rightarrow> string) \<Rightarrow> action \<Rightarrow> App \<Rightarrow> App \<times> request option" where
  "handleObjectAction toStr act s =
     (if length (selectedObjects s) = 0 then (s, None)
      else if act = isolate \<and> length (selectedObjects s) > 1
      then (s\<lparr>error := Some ''Please select only one object to isolate.''\<rparr>, None)
      else let actionPrompt =
                 (if act = isolate then isolate_prompt toStr (selectedObjects s ! 0)
                  else remove_prompt toStr (selectedObjects s))
           in handleGenerate_start (Some actionPrompt) s)"

definition translate_entry :: "(rat \<Rightarrow> string) \<Rightarrow> DetectedObject \<Rightarrow> nat \<Rightarrow> string" where
  "translate_entry toStr obj i =
     digits (i + 1) @ ''. Original Text: '' @ [CHR 0x22] @ label obj @ [CHR 0x22]
     @ '', Bounding Box (y_min, x_min, y_max, x_max): [''
     @ toFixed toStr (y_min (boundingBox obj)) 4 @ '', ''
     @ toFixed toStr (x_min (boundingBox obj)) 4 @ '', ''
     @ toFixed toStr (y_max (boundingBox obj)) 4 @ '', ''
     @ toFixed toStr (x_max (boundingBox obj)) 4 @ '']''"

definition translate_prompt :: "(rat \<Rightarrow> string) \<Rightarrow> DetectedObject list \<Rightarrow> string" where
  "translate_prompt toStr selected =
     (let objectsToTranslate = join [CHR 0x0A] (mapi (translate_entry toStr) selected)
      in ''Translate the text in the following regions from Chinese to Korean. Then, replace the original text with the Korean translation. Ensure the new text fits naturally in the same location and matches the original style (font, color, size) as closely as possible.''
         @ [CHR 0x0A, CHR 0x0A] @ ''Here are the text regions to translate:'' @ [CHR 0x0A]
         @ objectsToTranslate @ [CHR 0x0A])"

definition handleTranslate :: "(rat \<Rightarrow> string) \<Rightarrow> App \<Rightarrow> App \<times> request option" where
  "handleTranslate toStr s =
     (if length (selectedObjects s) = 0 then (s, None)
      else handleGenerate_start (Some (translate_prompt toStr (selectedObjects s))) s)"

subsection \<open>The geometry of the preview (\<open>ImagePreview\<close> in \<open>App.tsx\<close>)\<close>

text \<open>
  \<open>handleResize\<close> computes with doubles. The result of \<open>/\<close>, \<open>*\<close> and \<open>-\<close> is the exact
  result rounded to the nearest double, to the even one on a tie (IEEE 754,
  \<open>roundTiesToEven\<close>); \<open>to_double\<close> is that rounding, to 53 significant bits, on the exact
  value. \<open>floor_log2 a\<close> is the exponent \<open>k\<close> with \<open>2^k \<le> a < 2^(k+1)\<close>. The range of the
  exponent is not modelled: the four inputs are integers of the DOM, so no quotient or
  product of them leaves the range of the normal doubles.
\<close>

definition floor_log2 :: "rat \<Rightarrow> int" where
  "floor_log2 a = (if 1 \<le> a then bitlen \<lfloor>a\<rfloor> - 1 else - bitlen (\<lceil>1 / a\<rceil> - 1))"

definition round_even :: "rat \<Rightarrow> int" where
  "round_even q =
     (let n = \<lfloor>q\<rfloor>; r = q - of_int n
      in if r < 1 / 2 then n else if 1 / 2 < r then n + 1 else if even n then n else n + 1)"

definition to_double :: "rat \<Rightarrow> rat" where
  "to_double x =
     (if x = 0 then 0
      else (let e = floor_log2 \<bar>x\<bar> - 52;
                m = round_even (\<bar>x\<bar> / 2 powi e)
            in sgn x * of_int m * 2 powi e))"

text \<open>The state \<open>renderInfo\<close> of \<open>ImagePreview\<close>.\<close>

record renderInfo =
  width :: rat
  height :: rat
  top' :: rat
  left :: rat

text \<open>
  \<open>handleResize\<close> on the four properties it reads of the image element: \<open>None\<close> when it
  returns without \<open>setRenderInfo\<close>, otherwise the value it sets. The four integers enter
  the computation as they are, which is what doubles do with integers below \<open>2^53\<close>. With
  \<open>clientHeight = 0\<close> the ratio \<open>clientWidth / clientHeight\<close> is \<open>Infinity\<close> or \<open>NaN\<close>, and
  \<open>naturalRatio > clientRatio\<close> is false.
\<close>

definition handleResize :: "nat \<Rightarrow> nat \<Rightarrow> nat \<Rightarrow> nat \<Rightarrow> renderInfo option" where
  "handleResize clientWidth clientHeight naturalWidth naturalHeight =
     (if naturalWidth = 0 \<or> naturalHeight = 0 then None
      else
        (let naturalRatio = to_double (of_nat naturalWidth / of_nat naturalHeight)
         in if clientHeight \<noteq> 0
               \<and> to_double (of_nat clientWidth / of_nat clientHeight) < naturalRatio
            then (let width = of_nat clientWidth;
                      height = to_double (of_nat clientWidth / naturalRatio);
                      top = to_double (to_double (of_nat clientHeight - height) / 2)
                  in Some \<lparr> width = width, height = height, top' = top, left = 0 \<rparr>)
            else (let height = of_nat clientHeight;
                      width = to_double (of_nat clientHeight * naturalRatio);
                      left = to_double (to_double (of_nat clientWidth - width) / 2)
                  in Some \<lparr> width = width, height = height, top' = 0, left = left \<rparr>)))"

section \<open>Notions used to state the properties\<close>






text \<open>
  The bounding-box literal the specification asks for: the four coordinates in the order
  \<open>y_min, x_min, y_max, x_max\<close>, each printed by \<open>toFixed(4)\<close>, separated by a comma and
  a space, in square brackets.
\<close>

definition bbox_literal :: "(rat \<Rightarrow> string) \<Rightarrow> boundingBox \<Rightarrow> string" where
  "bbox_literal toStr b =
     ''['' @ join '', '' (map (\<lambda>v. toFixed toStr v 4) [y_min b, x_min b, y_max b, x_max b]) @ '']''"


fun is_finite :: "number \<Rightarrow> bool" where
  "is_finite (Finite r) \<longleftrightarrow> True"
| "is_finite v \<longleftrightarrow> False"

fun value_of :: "number \<Rightarrow> rat" where
  "value_of (Finite r) = r"
| "value_of v = 0"

definition coords :: "boundingBox \<Rightarrow> number list" where
  "coords b = [x_min b, y_min b, x_max b, y_max b]"

text \<open>
  The region \<open>{x_min: 0.1, y_min: 0.2, x_max: 0.3, y_max: 0.4}\<close> with label \<open>cat\<close>: the
  coordinates are the doubles nearest to these decimals, as exact fractions, and the
  properties are in the order of the response schema.
\<close>

definition example_region :: DetectedObject where
  "example_region =
     \<lparr> label = ''cat'',
       boundingBox =
         \<lparr> x_min = Finite (3602879701896397 / 36028797018963968),
           y_min = Finite (3602879701896397 / 18014398509481984),
           x_max = Finite (5404319552844595 / 18014398509481984),
           y_max = Finite (3602879701896397 / 9007199254740992),
           keys = [X_min, Y_min, X_max, Y_max] \<rparr> \<rparr>"

text \<open>A second region, \<open>{x_min: 0.5, y_min: 0.25, x_max: 0.75, y_max: 0.5}\<close> with label \<open>dog\<close>.\<close>

definition example_region2 :: DetectedObject where
  "example_region2 =
     \<lparr> label = ''dog'',
       boundingBox =
         \<lparr> x_min = Finite (1 / 2), y_min = Finite (1 / 4), x_max = Finite (3 / 4),
           y_max = Finite (1 / 2), keys = [X_min, Y_min, X_max, Y_max] \<rparr> \<rparr>"

text \<open>
  The first region again, as an object whose bounding box lists the same four properties
  in the order \<open>y_min, x_min, y_max, x_max\<close>.
\<close>

definition example_region_reordered :: DetectedObject where
  "example_region_reordered =
     example_region\<lparr>boundingBox := (boundingBox example_region)\<lparr>keys := [Y_min, X_min, Y_max, X_max]\<rparr>\<rparr>"

text \<open>
  Structural equality of two regions, as the data model states it: equal labels and the
  four coordinates equal, each to each.
\<close>

definition structurally_equal :: "DetectedObject \<Rightarrow> DetectedObject \<Rightarrow> bool" where
  "structurally_equal a b \<longleftrightarrow>
     label a = label b
     \<and> x_min (boundingBox a) = x_min (boundingBox b)
     \<and> y_min (boundingBox a) = y_min (boundingBox b)
     \<and> x_max (boundingBox a) = x_max (boundingBox b)
     \<and> y_max (boundingBox a) = y_max (boundingBox b)"

text \<open>
  The toggle of the selection as its contract states it: remove the structurally equal
  region when one is present, otherwise append the region at the end.
\<close>

definition toggle_contract :: "DetectedObject \<Rightarrow> DetectedObject list \<Rightarrow> DetectedObject list" where
  "toggle_contract r s =
     (if list_ex (\<lambda>x. structurally_equal x r) s
      then filter (\<lambda>x. \<not> structurally_equal x r) s
      else s @ [r])"

text \<open>
  What the equality of regions needs of \<open>Number::toString\<close> on the numbers at hand: it
  prints different numbers differently, and prints no comma. ECMAScript's does both, on
  all finite doubles.
\<close>

definition prints_apart :: "(rat \<Rightarrow> string) \<Rightarrow> rat list \<Rightarrow> bool" where
  "prints_apart toStr rs \<longleftrightarrow>
     distinct (map toStr (remdups rs)) \<and> list_all (\<lambda>r. CHR '','' \<notin> set (toStr r)) rs"

text \<open>
  The entries of a numbered list: the items in order, each behind its number and a point,
  counting from \<open>k\<close>.
\<close>

fun numbered_from :: "nat \<Rightarrow> ('a \<Rightarrow> string) \<Rightarrow> 'a list \<Rightarrow> string list" where
  "numbered_from k body [] = []"
| "numbered_from k body (x # xs) = (digits k @ ''. '' @ body x) # numbered_from (Suc k) body xs"

text \<open>What follows the number in an entry of the remove and of the translate prompt.\<close>

definition remove_body :: "(rat \<Rightarrow> string) \<Rightarrow> DetectedObject \<Rightarrow> string" where
  "remove_body toStr obj =
     ''The object '' @ [CHR 0x27] @ label obj @ [CHR 0x27] @ '' located within bounding box ''
     @ bbox_literal toStr (boundingBox obj)"

definition translate_body :: "(rat \<Rightarrow> string) \<Rightarrow> DetectedObject \<Rightarrow> string" where
  "translate_body toStr obj =
     ''Original Text: '' @ [CHR 0x22] @ label obj @ [CHR 0x22]
     @ '', Bounding Box (y_min, x_min, y_max, x_max): '' @ bbox_literal toStr (boundingBox obj)"

text \<open>
  A selection holds each region once: no two of its entries are equal as regions, that
  is, by label and serialised bounding box.
\<close>

definition region_key :: "(rat \<Rightarrow> string) \<Rightarrow> DetectedObject \<Rightarrow> string \<times> string" where
  "region_key toStr obj = (label obj, JSON_stringify toStr (boundingBox obj))"

definition unique_selection :: "(rat \<Rightarrow> string) \<Rightarrow> DetectedObject list \<Rightarrow> bool" where
  "unique_selection toStr sel \<longleftrightarrow> distinct (map (region_key toStr) sel)"

text \<open>The prompt \<open>handleGenerate\<close> works with: \<open>promptOverride || prompt\<close>.\<close>

definition effective_prompt :: "string option \<Rightarrow> App \<Rightarrow> string" where
  "effective_prompt promptOverride s =
     (case promptOverride of Some p \<Rightarrow> if p \<noteq> [] then p else prompt s | None \<Rightarrow> prompt s)"

text \<open>
  A response carries no image when no part of any of its candidates has non-empty inline
  data.
\<close>

definition part_has_image :: "part \<Rightarrow> bool" where
  "part_has_image p \<longleftrightarrow>
     (case part_inlineData p of
        Some d \<Rightarrow> (case data d of Some img \<Rightarrow> img \<noteq> [] | None \<Rightarrow> False)
      | None \<Rightarrow> False)"

definition candidate_has_image :: "candidate \<Rightarrow> bool" where
  "candidate_has_image c \<longleftrightarrow>
     (case candidate_content c of
        Some ct \<Rightarrow> (case parts ct of Some ps \<Rightarrow> list_ex part_has_image ps | None \<Rightarrow> False)
      | None \<Rightarrow> False)"

definition no_image_data :: "response \<Rightarrow> bool" where
  "no_image_data resp \<longleftrightarrow>
     (case candidates resp of Some cs \<Rightarrow> \<not> list_ex candidate_has_image cs | None \<Rightarrow> True)"


text \<open>A response with one candidate whose only part is the image \<open>BBBB\<close>, and one without a candidate.\<close>

definition image_response :: response where
  "image_response =
     \<lparr> candidates = Some [\<lparr> candidate_content =
         Some \<lparr> parts = Some [\<lparr> part_inlineData = Some \<lparr> data = Some ''BBBB'' \<rparr> \<rparr>] \<rparr> \<rparr>] \<rparr>"

definition empty_response :: response where
  "empty_response = \<lparr> candidates = Some [] \<rparr>"

text \<open>
  The editor after a PNG was uploaded and a prompt typed, and after the backend then
  answered a run of \<open>handleGenerate\<close> with the image.
\<close>

definition ready :: App where
  "ready =
     setPrompt ''Add a retro, vintage filter.''
       (handleFileChange (Some ''image/png'') (Resolved ''data:image/png;base64,AAAA'') initial)"

definition succeeded :: App where
  "succeeded = last (fst (handleGenerate (\<lambda>req. Resolved image_response) None ready))"

text \<open>
  The editor after a first background was generated: Generate Background on the first
  render, answered with the image while nothing else happened.
\<close>

definition background_done :: App where
  "background_done =
     handleGenerateBackground_settle
       (generateImageFromPrompt (\<lambda>p. Resolved image_response) (backgroundPrompt initial))
       (fst (handleGenerateBackground_start initial))"

text \<open>
  A parsed response has no usable \<open>objects\<close> when it is not an object, or is an object
  without that property or with a falsy one.
\<close>

fun no_objects :: "json \<Rightarrow> bool" where
  "no_objects (JObject ps) \<longleftrightarrow>
     (case map_of ps ''objects'' of None \<Rightarrow> True | Some v \<Rightarrow> \<not> truthy v)"
| "no_objects v \<longleftrightarrow> True"

text \<open>
  \<open>JSON.parse\<close> on the texts of the examples: \<open>null\<close>, \<open>{}\<close> and \<open>5\<close> are JSON, and the one
  other text the examples use, \<open>not json\<close>, is not.
\<close>

definition example_parse :: "string \<Rightarrow> json option" where
  "example_parse t =
     (if t = ''null'' then Some JNull
      else if t = ''{}'' then Some (JObject [])
      else if t = ''5'' then Some (JNumber (Finite 5))
      else None)"

text \<open>A backend that answers every detection request with the text \<open>t\<close>.\<close>

definition text_answer :: "string \<Rightarrow> detection_request \<Rightarrow> text_response promise" where
  "text_answer t req = Resolved \<lparr> response_text = Some t \<rparr>"

text \<open>
  The unit roundoff of double arithmetic, \<open>2^-53\<close>: rounding to nearest changes a number by
  at most this fraction of it.
\<close>

definition unit_roundoff :: rat where
  "unit_roundoff = 1 / 2 ^ 53"

text \<open>The aspect ratio of the image, as an exact fraction.\<close>

definition natural_ratio :: "nat \<Rightarrow> nat \<Rightarrow> rat" where
  "natural_ratio naturalWidth naturalHeight = of_nat naturalWidth / of_nat naturalHeight"

text \<open>
  An extent is centred in its container at an offset when the offset is half of what the
  extent leaves free, up to the rounding of that difference (halving a double is exact).
\<close>

definition centred :: "rat \<Rightarrow> rat \<Rightarrow> rat \<Rightarrow> bool" where
  "centred offset container extent \<longleftrightarrow>
     \<bar>offset - (container - extent) / 2\<bar> \<le> unit_roundoff / 2 * \<bar>container - extent\<bar>"

section \<open>Auxiliary facts\<close>

subsection \<open>Digits\<close>




lemma digits_nonempty: "digits n \<noteq> []"
  by (subst digits.simps) simp




text \<open>Evaluating \<open>digits\<close> on numerals.\<close>

lemma digits_numeral:
  "digits (numeral k) =
     (if (numeral k :: nat) < 10 then [digit_char (numeral k)]
      else digits (numeral k div 10) @ [digit_char (numeral k mod 10)])"
  by (rule digits.simps)

lemma digits_0: "digits 0 = ''0''"
  by (simp add: digits.simps [of 0] digit_char_def)

lemma digits_1: "digits (Suc 0) = ''1''"
  by (simp add: digits.simps [of "Suc 0"] digit_char_def)

lemma floor_rat_numeral: "\<lfloor>numeral a / numeral b :: rat\<rfloor> = numeral a div numeral b"
  by (metis floor_divide_of_int_eq of_int_numeral)

lemma replicate_numeral: "replicate (numeral k) x = x # replicate (pred_numeral k) x"
  by (simp add: numeral_eq_Suc)

lemmas toFixed_eval =
  toFixed_def floor_rat_numeral digits_numeral digits_0 digits_1 digit_char_def replicate_numeral

subsection \<open>The format of \<open>toFixed(4)\<close>\<close>










subsection \<open>Numbered entries\<close>


lemma zip_upt_numbered:
  "map (\<lambda>(x, i). digits (i + 1) @ ''. '' @ body x) (zip xs [k..<k + length xs])
     = numbered_from (Suc k) body xs"
proof (induction xs arbitrary: k)
  case Nil
  show ?case by simp
next
  case (Cons x xs)
  have "[k..<k + length (x # xs)] = k # [Suc k..<Suc k + length xs]"
    by (simp add: upt_rec)
  with Cons [of "Suc k"] show ?case by simp
qed

lemma mapi_numbered:
  "mapi (\<lambda>x i. digits (i + 1) @ ''. '' @ body x) xs = numbered_from 1 body xs"
  using zip_upt_numbered [of body xs 0] by (simp add: mapi_def)

lemma remove_entry_body: "remove_entry toStr obj i = digits (i + 1) @ ''. '' @ remove_body toStr obj"
  by (simp add: remove_entry_def remove_body_def bbox_literal_def)

lemma translate_entry_body:
  "translate_entry toStr obj i = digits (i + 1) @ ''. '' @ translate_body toStr obj"
  by (simp add: translate_entry_def translate_body_def bbox_literal_def)

lemma remove_entries: "mapi (remove_entry toStr) sel = numbered_from 1 (remove_body toStr) sel"
  using mapi_numbered [of "remove_body toStr" sel] by (simp add: remove_entry_body [abs_def])

lemma translate_entries:
  "mapi (translate_entry toStr) sel = numbered_from 1 (translate_body toStr) sel"
  using mapi_numbered [of "translate_body toStr" sel] by (simp add: translate_entry_body [abs_def])

lemma length_numbered_from: "length (numbered_from k body xs) = length xs"
  by (induction xs arbitrary: k) simp_all

lemma nth_numbered_from:
  "i < length xs \<Longrightarrow> numbered_from k body xs ! i = digits (k + i) @ ''. '' @ body (xs ! i)"
proof (induction xs arbitrary: k i)
  case Nil
  then show ?case by simp
next
  case (Cons x xs)
  show ?case
  proof (cases i)
    case 0
    then show ?thesis by simp
  next
    case (Suc j)
    with Cons.prems have "j < length xs" by simp
    from Cons.IH [OF this, of "Suc k"] Suc show ?thesis by simp
  qed
qed

lemma handleGenerate_start_request:
  assumes "image s = Some img" "p \<noteq> []"
  shows "handleGenerate_start (Some p) s =
           (s\<lparr>isLoading := True, error := None, resultImage := None\<rparr>,
            Some \<lparr> base64ImageData = element (split_comma [] (src img)) 1,
                   mimeType = file_type img, request_prompt = p \<rparr>)"
  using assms by (simp add: handleGenerate_start_def)

lemma remove_prompt_nonempty: "remove_prompt toStr sel \<noteq> []"
  by (simp add: remove_prompt_def)

lemma translate_prompt_nonempty: "translate_prompt toStr sel \<noteq> []"
  by (simp add: translate_prompt_def)



subsection \<open>The selection set\<close>

lemma areObjectsEqual_key: "areObjectsEqual toStr a b \<longleftrightarrow> region_key toStr a = region_key toStr b"
  by (simp add: areObjectsEqual_def region_key_def)

lemma filter_other_keys:
  assumes "distinct (map f (ys @ x # zs))"
  shows "filter (\<lambda>y. f y \<noteq> f x) (ys @ x # zs) = ys @ zs"
proof -
  from assms have "\<forall>y\<in>set ys. f y \<noteq> f x" and "\<forall>z\<in>set zs. f z \<noteq> f x"
    by (fastforce simp: image_iff)+
  then show ?thesis by simp
qed

lemma toggle_present:
  assumes "unique_selection toStr s" "list_ex (\<lambda>obj. areObjectsEqual toStr obj r) s"
  shows "\<exists>ys x zs. s = ys @ x # zs \<and> areObjectsEqual toStr x r
           \<and> handleObjectSelect toStr r s = ys @ zs"
proof -
  from assms(2) obtain x where x: "x \<in> set s" and eq: "areObjectsEqual toStr x r"
    by (auto simp: list_ex_iff)
  from x obtain ys zs where s: "s = ys @ x # zs" by (auto dest: split_list)
  from eq have key: "region_key toStr r = region_key toStr x"
    by (simp add: areObjectsEqual_key)
  from assms(1) have "distinct (map (region_key toStr) (ys @ x # zs))"
    by (simp add: unique_selection_def s)
  from filter_other_keys [OF this]
  have "handleObjectSelect toStr r s = ys @ zs"
    using assms(2) by (simp add: handleObjectSelect_def areObjectsEqual_key key s)
  with s eq show ?thesis by blast
qed

lemma toggle_absent:
  assumes "\<not> list_ex (\<lambda>obj. areObjectsEqual toStr obj r) s"
  shows "handleObjectSelect toStr r s = s @ [r]"
  using assms by (simp add: handleObjectSelect_def)

lemma toggle_unique:
  assumes "unique_selection toStr s"
  shows "unique_selection toStr (handleObjectSelect toStr r s)"
proof (cases "list_ex (\<lambda>obj. areObjectsEqual toStr obj r) s")
  case True
  then have "handleObjectSelect toStr r s = filter (\<lambda>obj. \<not> areObjectsEqual toStr obj r) s"
    by (simp add: handleObjectSelect_def)
  with assms show ?thesis
    by (simp add: unique_selection_def distinct_map_filter)
next
  case False
  then have "region_key toStr r \<notin> region_key toStr ` set s"
    by (auto simp: list_ex_iff areObjectsEqual_key)
  with assms False show ?thesis
    by (simp add: unique_selection_def toggle_absent)
qed

lemma toggle_twice_empty: "handleObjectSelect toStr r (handleObjectSelect toStr r []) = []"
  by (simp add: handleObjectSelect_def areObjectsEqual_def)

subsection \<open>Region equality\<close>

lemma append_sep_eq:
  assumes "x \<notin> set xs" "x \<notin> set xs'"
  shows "xs @ x # ys = xs' @ x # ys' \<longleftrightarrow> xs = xs' \<and> ys = ys'"
  using assms
proof (induction xs arbitrary: xs')
  case Nil
  then show ?case by (cases xs') auto
next
  case (Cons a xs)
  then show ?case by (cases xs') auto
qed

lemma join_values_eq:
  assumes "\<forall>c\<in>set ks. CHR '','' \<notin> set (va c) \<and> CHR '','' \<notin> set (vb c)"
  shows "join '','' (map (\<lambda>c. pre c @ va c) ks) @ e = join '','' (map (\<lambda>c. pre c @ vb c) ks) @ e
           \<longleftrightarrow> (\<forall>c\<in>set ks. va c = vb c)"
  using assms
proof (induction ks rule: induct_list012)
  case 1
  show ?case by simp
next
  case (2 k)
  show ?case by simp
next
  case (3 k k' ks)
  from 3(3) have nk: "CHR '','' \<notin> set (va k)" "CHR '','' \<notin> set (vb k)" by simp_all
  from 3(3) have rest: "\<forall>c\<in>set (k' # ks). CHR '','' \<notin> set (va c) \<and> CHR '','' \<notin> set (vb c)"
    by simp
  let ?ra = "join '','' (map (\<lambda>c. pre c @ va c) (k' # ks)) @ e"
  let ?rb = "join '','' (map (\<lambda>c. pre c @ vb c) (k' # ks)) @ e"
  have "join '','' (map (\<lambda>c. pre c @ va c) (k # k' # ks)) @ e
          = join '','' (map (\<lambda>c. pre c @ vb c) (k # k' # ks)) @ e
        \<longleftrightarrow> va k @ CHR '','' # ?ra = vb k @ CHR '','' # ?rb"
    by simp
  also have "\<dots> \<longleftrightarrow> va k = vb k \<and> ?ra = ?rb"
    using nk by (rule append_sep_eq)
  also have "\<dots> \<longleftrightarrow> va k = vb k \<and> (\<forall>c\<in>set (k' # ks). va c = vb c)"
    using 3(2) [OF rest] by simp
  finally show ?case by simp
qed

lemma JSON_stringify_eq:
  assumes "keys a = keys b"
    and "\<forall>c\<in>set (keys a). CHR '','' \<notin> set (stringify_number toStr (coord_value a c))
           \<and> CHR '','' \<notin> set (stringify_number toStr (coord_value b c))"
  shows "JSON_stringify toStr a = JSON_stringify toStr b
           \<longleftrightarrow> (\<forall>c\<in>set (keys a). stringify_number toStr (coord_value a c)
                                     = stringify_number toStr (coord_value b c))"
proof -
  let ?pre = "\<lambda>c. [CHR 0x22] @ coord_name c @ [CHR 0x22] @ '':''"
  have a: "map (stringify_property toStr a) (keys a)
             = map (\<lambda>c. ?pre c @ stringify_number toStr (coord_value a c)) (keys a)"
    by (simp add: stringify_property_def)
  have b: "map (stringify_property toStr b) (keys b)
             = map (\<lambda>c. ?pre c @ stringify_number toStr (coord_value b c)) (keys a)"
    by (simp add: stringify_property_def assms(1))
  show ?thesis
    unfolding JSON_stringify_def a b using join_values_eq [OF assms(2), of ?pre "''}''"]
    by simp
qed

lemma coords_finite:
  assumes "list_all is_finite (coords b)"
  shows "coord_value b c = Finite (value_of (coord_value b c))"
proof -
  have "is_finite (coord_value b c)"
    using assms by (cases c) (simp_all add: coords_def)
  then show ?thesis by (cases "coord_value b c") simp_all
qed

lemma coord_value_in_coords: "value_of (coord_value b c) \<in> set (map value_of (coords b))"
  by (cases c) (simp_all add: coords_def)

lemma areObjectsEqual_coordinates:
  assumes keys: "keys (boundingBox a) = keys (boundingBox b)" "set (keys (boundingBox a)) = UNIV"
    and fin: "list_all is_finite (coords (boundingBox a) @ coords (boundingBox b))"
    and pr: "prints_apart toStr (map value_of (coords (boundingBox a) @ coords (boundingBox b)))"
  shows "areObjectsEqual toStr a b \<longleftrightarrow>
           label a = label b \<and> x_min (boundingBox a) = x_min (boundingBox b)
           \<and> y_min (boundingBox a) = y_min (boundingBox b)
           \<and> x_max (boundingBox a) = x_max (boundingBox b)
           \<and> y_max (boundingBox a) = y_max (boundingBox b)"
proof -
  let ?A = "boundingBox a" and ?B = "boundingBox b"
  let ?V = "set (map value_of (coords ?A @ coords ?B))"
  from fin have fa: "list_all is_finite (coords ?A)" and fb: "list_all is_finite (coords ?B)"
    by simp_all
  have va: "value_of (coord_value ?A c) \<in> ?V" and vb: "value_of (coord_value ?B c) \<in> ?V" for c
    using coord_value_in_coords [of ?A c] coord_value_in_coords [of ?B c] by auto
  from pr have "distinct (map toStr (remdups (map value_of (coords ?A @ coords ?B))))"
    by (simp add: prints_apart_def)
  then have "inj_on toStr (set (remdups (map value_of (coords ?A @ coords ?B))))"
    by (simp only: distinct_map)
  then have inj: "inj_on toStr ?V" by (simp only: set_remdups)
  from pr have nc: "\<forall>r\<in>?V. CHR '','' \<notin> set (toStr r)"
    by (simp add: prints_apart_def list_all_iff)
  have sa: "stringify_number toStr (coord_value ?A c) = toStr (value_of (coord_value ?A c))" for c
    by (subst coords_finite [OF fa]) simp
  have sb: "stringify_number toStr (coord_value ?B c) = toStr (value_of (coord_value ?B c))" for c
    by (subst coords_finite [OF fb]) simp
  have commas: "\<forall>c\<in>set (keys ?A). CHR '','' \<notin> set (stringify_number toStr (coord_value ?A c))
           \<and> CHR '','' \<notin> set (stringify_number toStr (coord_value ?B c))"
    using nc va vb by (simp add: sa sb)
  have same: "stringify_number toStr (coord_value ?A c) = stringify_number toStr (coord_value ?B c)
                \<longleftrightarrow> coord_value ?A c = coord_value ?B c" for c
  proof -
    have "toStr (value_of (coord_value ?A c)) = toStr (value_of (coord_value ?B c))
            \<longleftrightarrow> value_of (coord_value ?A c) = value_of (coord_value ?B c)"
      by (rule inj_on_eq_iff [OF inj va vb])
    also have "\<dots> \<longleftrightarrow> coord_value ?A c = coord_value ?B c"
      using coords_finite [OF fa, of c] coords_finite [OF fb, of c] by auto
    finally show ?thesis by (simp add: sa sb)
  qed
  have "JSON_stringify toStr ?A = JSON_stringify toStr ?B
          \<longleftrightarrow> (\<forall>c. coord_value ?A c = coord_value ?B c)"
    using JSON_stringify_eq [OF keys(1) commas] by (simp add: same keys(2))
  also have "\<dots> \<longleftrightarrow> x_min ?A = x_min ?B \<and> y_min ?A = y_min ?B \<and> x_max ?A = x_max ?B
                     \<and> y_max ?A = y_max ?B"
  proof
    assume h: "\<forall>c. coord_value ?A c = coord_value ?B c"
    from h [rule_format, of X_min] h [rule_format, of Y_min] h [rule_format, of X_max]
      h [rule_format, of Y_max]
    show "x_min ?A = x_min ?B \<and> y_min ?A = y_min ?B \<and> x_max ?A = x_max ?B \<and> y_max ?A = y_max ?B"
      by simp
  next
    assume h: "x_min ?A = x_min ?B \<and> y_min ?A = y_min ?B \<and> x_max ?A = x_max ?B \<and> y_max ?A = y_max ?B"
    show "\<forall>c. coord_value ?A c = coord_value ?B c"
    proof
      fix c show "coord_value ?A c = coord_value ?B c" using h by (cases c) simp_all
    qed
  qed
  finally show ?thesis by (simp add: areObjectsEqual_def)
qed

lemma coord_UNIV: "set [X_min, Y_min, X_max, Y_max] = UNIV"
proof -
  have "c \<in> set [X_min, Y_min, X_max, Y_max]" for c by (cases c) simp_all
  then show ?thesis by blast
qed

subsection \<open>The generation state machine\<close>

lemma handleGenerate_start_effective:
  "handleGenerate_start po s =
     (case image s of
        None \<Rightarrow> (s\<lparr>error := Some ''Please upload an image and provide a prompt.''\<rparr>, None)
      | Some img \<Rightarrow>
          if effective_prompt po s = []
          then (s\<lparr>error := Some ''Please upload an image and provide a prompt.''\<rparr>, None)
          else (s\<lparr>isLoading := True, error := None, resultImage := None\<rparr>,
                Some \<lparr> base64ImageData = element (split_comma [] (src img)) 1,
                       mimeType = file_type img,
                       request_prompt = effective_prompt po s \<rparr>))"
  by (cases po; cases "image s") (simp_all add: handleGenerate_start_def effective_prompt_def)

lemma handleGenerate_start_guard:
  assumes "image s = None \<or> effective_prompt po s = []"
  shows "handleGenerate_start po s
           = (s\<lparr>error := Some ''Please upload an image and provide a prompt.''\<rparr>, None)"
  using assms by (auto simp: handleGenerate_start_effective split: option.splits)

lemma handleGenerate_start_pending:
  assumes "image s = Some img" "effective_prompt po s \<noteq> []"
  shows "handleGenerate_start po s
           = (s\<lparr>isLoading := True, error := None, resultImage := None\<rparr>,
              Some \<lparr> base64ImageData = element (split_comma [] (src img)) 1,
                     mimeType = file_type img,
                     request_prompt = effective_prompt po s \<rparr>)"
  using assms by (simp add: handleGenerate_start_effective)

subsection \<open>Responses without an image\<close>

lemma find_image_None: "\<not> list_ex part_has_image ps \<Longrightarrow> find_image ps = None"
  by (induction ps) (auto simp: part_has_image_def split: option.splits)

lemma editImage_try_no_image:
  assumes "no_image_data resp"
  shows "\<exists>e. editImage_try resp = Inl e"
proof (cases "candidates resp")
  case None
  then show ?thesis by (simp add: editImage_try_def)
next
  case (Some cs)
  show ?thesis
  proof (cases cs)
    case Nil
    with Some show ?thesis by (simp add: editImage_try_def)
  next
    case (Cons c cs')
    with Some assms have nc: "\<not> candidate_has_image c" by (simp add: no_image_data_def)
    show ?thesis
    proof (cases "candidate_content c")
      case None
      with Some Cons show ?thesis by (simp add: editImage_try_def)
    next
      case ct: (Some ct)
      show ?thesis
      proof (cases "parts ct")
        case None
        with Some Cons ct show ?thesis by (simp add: editImage_try_def)
      next
        case ps: (Some ps)
        with nc ct have "find_image ps = None"
          by (simp add: candidate_has_image_def find_image_None)
        with Some Cons ct ps show ?thesis by (simp add: editImage_try_def)
      qed
    qed
  qed
qed

lemma editImage_no_image:
  assumes "generateContent \<lparr> base64ImageData = imageData, mimeType = type, request_prompt = p \<rparr>
             = Resolved resp"
    and "no_image_data resp"
  shows "editImage generateContent imageData type p = Inl (Error edit_failed)"
  using editImage_try_no_image [OF assms(2)] assms(1) by (auto simp: editImage_def)

lemma request_eta:
  "\<lparr> base64ImageData = base64ImageData r, mimeType = mimeType r,
     request_prompt = request_prompt r \<rparr> = (r :: request)"
  by (cases r) simp

lemma handleGenerate_start_cases:
  assumes "snd (handleGenerate_start po s) = Some req"
  shows "handleGenerate_start po s
           = (s\<lparr>isLoading := True, error := None, resultImage := None\<rparr>, Some req)"
proof (cases "image s = None \<or> effective_prompt po s = []")
  case True
  from handleGenerate_start_guard [OF this] assms show ?thesis by simp
next
  case False
  then obtain img where "image s = Some img" "effective_prompt po s \<noteq> []" by auto
  from handleGenerate_start_pending [OF this] assms show ?thesis by simp
qed

lemma ready_fields:
  "image ready = Some \<lparr> src = ''data:image/png;base64,AAAA'', file_type = ''image/png'' \<rparr>"
  "prompt ready = ''Add a retro, vintage filter.''"
  "resultImage ready = None" "error ready = None" "isLoading ready = False"
  "selectedObjects ready = []"
  by (simp_all add: ready_def setPrompt_def handleFileChange_def initial_def)

lemma ready_request:
  "snd (handleGenerate_start None ready)
     = Some \<lparr> base64ImageData = Some ''AAAA'', mimeType = ''image/png'',
              request_prompt = ''Add a retro, vintage filter.'' \<rparr>"
  by (simp add: handleGenerate_start_def ready_fields element_def)

lemma no_image_empty_response: "no_image_data empty_response"
  by (simp add: no_image_data_def empty_response_def)

subsection \<open>One attempt, from pending to its end\<close>

lemma settle_exactly_one:
  assumes "resultImage p = None" "error p = None"
  shows "(resultImage (handleGenerate_settle outcome p) = None)
           \<noteq> (error (handleGenerate_settle outcome p) = None)"
proof (cases outcome)
  case (Inl e)
  with assms show ?thesis by (cases e) (simp_all add: handleGenerate_settle_def)
next
  case (Inr img)
  with assms show ?thesis by (simp add: handleGenerate_settle_def)
qed

lemma settle_not_loading: "\<not> isLoading (handleGenerate_settle outcome p)"
  by (cases outcome rule: sum.exhaust [case_names Inl Inr])
     (auto simp: handleGenerate_settle_def split: thrown.splits)

lemma background_settle_not_generating:
  "\<not> isGeneratingBg (handleGenerateBackground_settle outcome p)"
  by (cases outcome)
     (auto simp: handleGenerateBackground_settle_def split: thrown.splits)

lemma editImage_image_response:
  "editImage (\<lambda>req. Resolved image_response) imageData type p = Inr ''BBBB''"
  by (simp add: editImage_def editImage_try_def image_response_def)

lemma generateImage_image_response:
  "generateImageFromPrompt (\<lambda>p. Resolved image_response) p = Inr ''BBBB''"
  by (simp add: generateImageFromPrompt_def generateImageFromPrompt_try_def image_response_def)

lemma ready_effective: "effective_prompt None ready = ''Add a retro, vintage filter.''"
  by (simp add: effective_prompt_def ready_fields)

lemma ready_run:
  "fst (handleGenerate (\<lambda>req. Resolved image_response) None ready)
     = [ready\<lparr>isLoading := True, error := None, resultImage := None\<rparr>,
        ready\<lparr>isLoading := False, error := None,
          resultImage := Some ''data:image/png;base64,BBBB'', activePreset := None\<rparr>]"
  by (simp add: handleGenerate_def handleGenerate_start_pending [OF ready_fields(1)]
      ready_effective editImage_image_response handleGenerate_settle_def)

lemma succeeded_fields:
  "image succeeded = Some \<lparr> src = ''data:image/png;base64,AAAA'', file_type = ''image/png'' \<rparr>"
  "resultImage succeeded = Some ''data:image/png;base64,BBBB''"
  "error succeeded = None" "isLoading succeeded = False" "selectedObjects succeeded = []"
  by (simp_all add: succeeded_def ready_run ready_fields)

lemma background_done_fields:
  "generatedBackground background_done = Some ''data:image/png;base64,BBBB''"
  "backgroundPrompt background_done = ''A photorealistic image of a beautiful beach at sunset''"
  by (simp_all add: background_done_def
      handleGenerateBackground_start_def handleGenerateBackground_settle_def
      generateImage_image_response initial_def)

subsection \<open>One attempt among the handlers that stay enabled\<close>

lemma handler_loading: "isLoading (handler toStr e s) = isLoading s"
  by (cases e)
     (auto simp: handleFileChange_def clearImage_def handleObjectImageChange_def
        handleBackgroundImageChange_def handleGenerateBackground_start_def
        handleGenerateBackground_settle_def
        split: option.splits promise.splits sum.splits thrown.splits)

lemma handler_no_result: "resultImage s = None \<Longrightarrow> resultImage (handler toStr e s) = None"
  by (cases e)
     (auto simp: handleFileChange_def clearImage_def handleObjectImageChange_def
        handleBackgroundImageChange_def handleGenerateBackground_start_def
        handleGenerateBackground_settle_def
        split: option.splits promise.splits sum.splits thrown.splits)

lemma waiting_length: "length (waiting toStr es s) = length es + 1"
  by (induction es arbitrary: s) simp_all

lemma waiting_nonempty: "waiting toStr es s \<noteq> []"
  by (cases es) simp_all

lemma waiting_hd: "hd (waiting toStr es s) = s"
  by (cases es) simp_all

lemma waiting_invariant:
  assumes "isLoading s" "resultImage s = None"
  shows "list_all (\<lambda>t. isLoading t \<and> resultImage t = None) (waiting toStr es s)"
  using assms
  by (induction es arbitrary: s) (simp_all add: handler_loading handler_no_result)

lemma waiting_last:
  assumes "isLoading s" "resultImage s = None"
  shows "isLoading (last (waiting toStr es s))" "resultImage (last (waiting toStr es s)) = None"
  using waiting_invariant [OF assms, of toStr es] waiting_nonempty [of toStr es s]
  by (auto simp: list_all_iff)

lemma settle_outcome:
  "resultImage (handleGenerate_settle outcome p)
     = (case outcome of Inl e \<Rightarrow> resultImage p | Inr b \<Rightarrow> Some (''data:image/png;base64,'' @ b))"
  "error (handleGenerate_settle outcome p)
     = (case outcome of
          Inl (Error message) \<Rightarrow> Some message
        | Inl (TypeError message) \<Rightarrow> Some message
        | Inl (SyntaxError message) \<Rightarrow> Some message
        | Inl NotAnError \<Rightarrow> Some ''An unknown error occurred.''
        | Inr b \<Rightarrow> error p)"
  by (auto simp: handleGenerate_settle_def split: sum.splits thrown.splits)

lemma settle_failed_error: "error (handleGenerate_settle (Inl e) p) \<noteq> None"
  by (cases e) (simp_all add: handleGenerate_settle_def)

lemma interleaved_run:
  assumes "snd (handleGenerate_start po s) = Some req"
  shows "handleGenerate_interleaved toStr ai po events s
           = (waiting toStr events (s\<lparr>isLoading := True, error := None, resultImage := None\<rparr>)
                @ [handleGenerate_settle
                     (editImage ai (base64ImageData req) (mimeType req) (request_prompt req))
                     (last (waiting toStr events
                        (s\<lparr>isLoading := True, error := None, resultImage := None\<rparr>)))],
              [req])"
  by (simp add: handleGenerate_interleaved_def handleGenerate_start_cases [OF assms])

text \<open>With no event during the wait, the run is the run of \<open>handleGenerate\<close> alone.\<close>

lemma interleaved_alone:
  "handleGenerate_interleaved toStr ai po [] s = handleGenerate ai po s"
  by (simp add: handleGenerate_interleaved_def handleGenerate_def split: prod.splits option.splits)

lemma start_Some:
  assumes "image s \<noteq> None" "effective_prompt po s \<noteq> []"
  shows "\<exists>req. snd (handleGenerate_start po s) = Some req"
proof -
  from assms(1) obtain img where "image s = Some img" by auto
  from handleGenerate_start_pending [OF this assms(2)] show ?thesis by simp
qed

lemma ready_interleaved:
  "fst (handleGenerate_interleaved toStr (\<lambda>req. Resolved image_response) None events ready)
     = waiting toStr events (ready\<lparr>isLoading := True, error := None, resultImage := None\<rparr>)
         @ [handleGenerate_settle (Inr ''BBBB'')
              (last (waiting toStr events
                 (ready\<lparr>isLoading := True, error := None, resultImage := None\<rparr>)))]"
  by (simp add: interleaved_run [OF ready_request] editImage_image_response)

subsection \<open>Detection\<close>

lemma detection_try_empty:
  assumes "response_text resp = Some t" "trim t = []"
  shows "detection_try parse resp = Inr (JArray [])"
  using assms by (simp add: detection_try_def)

lemma detection_try_unparseable:
  assumes "response_text resp = Some t" "trim t \<noteq> []" "parse (trim t) = None"
  shows "detection_try parse resp = Inl (SyntaxError ''Unexpected token'')"
  using assms by (simp add: detection_try_def)

lemma detection_try_no_objects:
  assumes "response_text resp = Some t" "trim t \<noteq> []" "parse (trim t) = Some result"
    and "result \<noteq> JNull" "no_objects result"
  shows "detection_try parse resp = Inr (JArray [])"
proof (cases result)
  case (JObject ps)
  with assms show ?thesis
    by (auto simp: detection_try_def split: option.splits)
qed (use assms in \<open>simp_all add: detection_try_def\<close>)


lemma trim_blank: "trim [CHR 0x20, CHR 0x0A] = []"
  by (simp add: trim_def is_space_def)

lemma trim_examples: "trim ''not json'' = ''not json''" "trim '' null '' = ''null''"
  "trim ''{}'' = ''{}''" "trim ''5'' = ''5''"
  by (simp_all add: trim_def is_space_def)


subsection \<open>Rounding to a double\<close>

lemma floor_log2_le:
  assumes "0 < a"
  shows "2 powi floor_log2 a \<le> a"
proof (cases "1 \<le> a")
  case True
  then have n: "0 < \<lfloor>a\<rfloor>" by simp
  from bitlen_bounds [OF n] have "2 ^ nat (bitlen \<lfloor>a\<rfloor> - 1) \<le> \<lfloor>a\<rfloor>" by simp
  then have "(of_int (2 ^ nat (bitlen \<lfloor>a\<rfloor> - 1)) :: rat) \<le> of_int \<lfloor>a\<rfloor>"
    by (simp only: of_int_le_iff)
  also have "\<dots> \<le> a" by simp
  finally have "(2 :: rat) ^ nat (bitlen \<lfloor>a\<rfloor> - 1) \<le> a" by simp
  moreover from n have "1 \<le> bitlen \<lfloor>a\<rfloor>"
    using bitlen_eq_zero_iff [of "\<lfloor>a\<rfloor>"] bitlen_nonneg [of "\<lfloor>a\<rfloor>"] by linarith
  ultimately show ?thesis using True by (simp add: floor_log2_def power_int_def)
next
  case False
  with assms have a: "0 < a" "a < 1" by simp_all
  let ?c = "\<lceil>1 / a\<rceil>"
  from a have "1 < 1 / a" by simp
  then have c2: "2 \<le> ?c" by linarith
  then have pos: "0 < ?c - 1" by simp
  let ?m = "bitlen (?c - 1)"
  from bitlen_bounds [OF pos] have "?c - 1 < 2 ^ nat ?m" by simp
  then have "?c \<le> 2 ^ nat ?m" by simp
  then have "(of_int ?c :: rat) \<le> of_int (2 ^ nat ?m)" by (simp only: of_int_le_iff)
  then have "(of_int ?c :: rat) \<le> 2 ^ nat ?m" by simp
  moreover have "1 / a \<le> of_int ?c" by simp
  ultimately have "1 / a \<le> 2 ^ nat ?m" by linarith
  with a have "1 \<le> 2 ^ nat ?m * a" by (simp add: field_simps)
  then have "1 / 2 ^ nat ?m \<le> a" by (simp add: field_simps)
  moreover have "0 \<le> ?m" by (rule bitlen_nonneg)
  ultimately show ?thesis using False
    by (auto simp: floor_log2_def power_int_def inverse_eq_divide power_one_over)
qed

lemma round_even_error: "\<bar>of_int (round_even q) - q\<bar> \<le> 1 / 2"
proof -
  define r where "r = q - of_int \<lfloor>q\<rfloor>"
  have r: "0 \<le> r" "r < 1" unfolding r_def by linarith+
  have q: "q = of_int \<lfloor>q\<rfloor> + r" by (simp add: r_def)
  consider "r < 1 / 2" | "1 / 2 < r" | "r = 1 / 2" by linarith
  then show ?thesis
  proof cases
    case 1
    then have "round_even q = \<lfloor>q\<rfloor>" by (simp add: round_even_def r_def)
    with r 1 show ?thesis by (subst (2) q) simp
  next
    case 2
    then have "round_even q = \<lfloor>q\<rfloor> + 1" by (simp add: round_even_def r_def)
    with r 2 show ?thesis by (subst (2) q) simp
  next
    case 3
    have "round_even q = \<lfloor>q\<rfloor> \<or> round_even q = \<lfloor>q\<rfloor> + 1"
      by (auto simp: round_even_def Let_def)
    with 3 show ?thesis by (subst (2) q) auto
  qed
qed

lemma to_double_error: "\<bar>to_double x - x\<bar> \<le> unit_roundoff * \<bar>x\<bar>"
proof (cases "x = 0")
  case True
  then show ?thesis by (simp add: to_double_def)
next
  case False
  define a where "a = \<bar>x\<bar>"
  define k where "k = floor_log2 a"
  define P where "P = (2 :: rat) powi (k - 52)"
  define m where "m = round_even (a / P)"
  from False have a: "0 < a" by (simp add: a_def)
  have P: "0 < P" by (simp add: P_def)
  have Pk: "P = 2 powi k / 2 ^ 52" by (simp add: P_def power_int_diff)
  from floor_log2_le [OF a] have "P \<le> a / 2 ^ 52" by (simp add: Pk k_def divide_right_mono)
  then have Pa: "P / 2 \<le> unit_roundoff * a" by (simp add: unit_roundoff_def)
  have td: "to_double x = sgn x * of_int m * P"
    using False by (simp add: to_double_def Let_def a_def k_def P_def m_def)
  have x: "x = sgn x * a" by (simp add: a_def sgn_mult_abs)
  have "to_double x - x = sgn x * (of_int m * P - a)"
    by (subst x) (simp add: td algebra_simps)
  then have "\<bar>to_double x - x\<bar> = \<bar>of_int m * P - a\<bar>"
    using False by (simp add: abs_mult abs_sgn_eq)
  also have "of_int m * P - a = (of_int m - a / P) * P" using P by (simp add: field_simps)
  also have "\<bar>\<dots>\<bar> = \<bar>of_int m - a / P\<bar> * P" using P by (simp add: abs_mult)
  also have "\<dots> \<le> 1 / 2 * P"
    using round_even_error [of "a / P"] P unfolding m_def by (intro mult_right_mono) simp_all
  also have "\<dots> \<le> unit_roundoff * a" using Pa by simp
  finally show ?thesis by (simp add: a_def)
qed

lemma unit_roundoff_range: "0 < unit_roundoff" "unit_roundoff < 1"
  by (simp_all add: unit_roundoff_def)

lemma to_double_bounds:
  assumes "0 < x"
  shows "(1 - unit_roundoff) * x \<le> to_double x" "to_double x \<le> (1 + unit_roundoff) * x"
  using to_double_error [of x] assms by (simp_all add: abs_le_iff algebra_simps)

lemma to_double_pos:
  assumes "0 < x"
  shows "0 < to_double x"
proof -
  have "0 < (1 - unit_roundoff) * x" using assms unit_roundoff_range by simp
  with to_double_bounds(1) [OF assms] show ?thesis by linarith
qed

lemma div_scaled:
  fixes W n c :: rat
  assumes "W \<noteq> 0"
  shows "W / (c * (W / n)) = n / c"
  using assms by simp

text \<open>The branch that fills the width.\<close>

lemma fill_width:
  fixes W H R nr cr h u :: rat
  assumes u: "0 < u" "u < 1" and pos: "0 < W" "0 < H" "0 < R"
    and nr: "(1 - u) * R \<le> nr" "nr \<le> (1 + u) * R"
    and cr: "(1 - u) * (W / H) \<le> cr" and lt: "cr < nr"
    and h: "(1 - u) * (W / nr) \<le> h" "h \<le> (1 + u) * (W / nr)"
  shows "0 < h" "h \<le> (1 + u) / (1 - u) * H"
    "(1 - u)\<^sup>2 * R \<le> W / h" "W / h \<le> (1 + u) / (1 - u) * R"
proof -
  have u1: "0 < 1 - u" "0 < 1 + u" using u by simp_all
  have "0 < W / H" using pos by simp
  with u1(1) have lw: "0 < (1 - u) * (W / H)" by (rule mult_pos_pos)
  with cr have crpos: "0 < cr" by linarith
  have nrpos: "0 < nr" using crpos lt by linarith
  have xpos: "0 < W / nr" using pos nrpos by simp
  show hpos: "0 < h"
  proof -
    have "0 < (1 - u) * (W / nr)" using u1(1) xpos by (rule mult_pos_pos)
    with h(1) show ?thesis by linarith
  qed
  have "W / nr \<le> W / cr" using lt crpos pos by (simp add: frac_le)
  also have "W / cr \<le> W / ((1 - u) * (W / H))"
    by (rule divide_left_mono [OF cr _ mult_pos_pos [OF crpos lw]]) (use pos in simp)
  also have "\<dots> = H / (1 - u)" using pos by (intro div_scaled) simp
  finally have "W / nr \<le> H / (1 - u)" .
  then have "(1 + u) * (W / nr) \<le> (1 + u) * (H / (1 - u))"
    by (rule mult_left_mono) (use u1 in simp)
  also have "\<dots> = (1 + u) / (1 - u) * H" by simp
  finally show "h \<le> (1 + u) / (1 - u) * H" using h(2) by linarith
  have upp: "0 < (1 + u) * (W / nr)" using u1(2) xpos by (rule mult_pos_pos)
  have "W / ((1 + u) * (W / nr)) \<le> W / h"
    by (rule divide_left_mono [OF h(2) _ mult_pos_pos [OF upp hpos]]) (use pos in simp)
  moreover have "W / ((1 + u) * (W / nr)) = nr / (1 + u)" using pos by (intro div_scaled) simp
  ultimately have lo: "nr / (1 + u) \<le> W / h" by simp
  have "(1 - u)\<^sup>2 * R \<le> (1 - u) * R / (1 + u)"
  proof -
    have "(1 - u) * (1 + u) \<le> 1" using u by (simp add: algebra_simps)
    then have "(1 - u) * (1 + u) * ((1 - u) * R) \<le> 1 * ((1 - u) * R)"
      using u1 pos by (intro mult_right_mono) simp_all
    then have "(1 - u)\<^sup>2 * R * (1 + u) \<le> (1 - u) * R" by (simp add: power2_eq_square algebra_simps)
    then show ?thesis using u1 by (simp add: pos_le_divide_eq)
  qed
  also have "\<dots> \<le> nr / (1 + u)" using nr(1) u1 by (simp add: divide_right_mono)
  also note lo
  finally show "(1 - u)\<^sup>2 * R \<le> W / h" .
  have lowpos: "0 < (1 - u) * (W / nr)" using u1(1) xpos by (rule mult_pos_pos)
  have "W / h \<le> W / ((1 - u) * (W / nr))"
    by (rule divide_left_mono [OF h(1) _ mult_pos_pos [OF hpos lowpos]]) (use pos in simp)
  also have "\<dots> = nr / (1 - u)" using pos by (intro div_scaled) simp
  also have "\<dots> \<le> (1 + u) * R / (1 - u)" using nr(2) u1 by (simp add: divide_right_mono)
  finally show "W / h \<le> (1 + u) / (1 - u) * R" by simp
qed

text \<open>The branch that fills the height.\<close>

lemma fill_height:
  fixes W H R nr cr w u :: rat
  assumes u: "0 < u" "u < 1" and pos: "0 < W" "0 < H" "0 < R"
    and nr: "(1 - u) * R \<le> nr" "nr \<le> (1 + u) * R"
    and cr: "cr \<le> (1 + u) * (W / H)" and le: "nr \<le> cr"
    and w: "(1 - u) * (H * nr) \<le> w" "w \<le> (1 + u) * (H * nr)"
  shows "0 < w" "w \<le> (1 + u)\<^sup>2 * W"
    "(1 - u)\<^sup>2 * R \<le> w / H" "w / H \<le> (1 + u) / (1 - u) * R"
proof -
  have u1: "0 < 1 - u" "0 < 1 + u" using u by simp_all
  have nrpos: "0 < nr"
  proof -
    have "0 < (1 - u) * R" using u1(1) pos(3) by (rule mult_pos_pos)
    with nr(1) show ?thesis by linarith
  qed
  show "0 < w"
  proof -
    have "0 < H * nr" using pos nrpos by simp
    with u1(1) have "0 < (1 - u) * (H * nr)" by (rule mult_pos_pos)
    with w(1) show ?thesis by linarith
  qed
  have "H * nr \<le> H * ((1 + u) * (W / H))"
    using le cr pos by (intro mult_left_mono) simp_all
  also have "\<dots> = (1 + u) * W" using pos by simp
  finally have "(1 + u) * (H * nr) \<le> (1 + u) * ((1 + u) * W)"
    using u1 by (intro mult_left_mono) simp_all
  with w(2) show "w \<le> (1 + u)\<^sup>2 * W" by (simp add: power2_eq_square algebra_simps)
  have "(1 - u) * ((1 - u) * R) \<le> (1 - u) * nr"
    using nr(1) u1 by (intro mult_left_mono) simp_all
  also have "\<dots> = (1 - u) * (H * nr) / H" using pos by simp
  also have "\<dots> \<le> w / H" by (rule divide_right_mono) (use w(1) pos in simp_all)
  finally show "(1 - u)\<^sup>2 * R \<le> w / H" by (simp add: power2_eq_square algebra_simps)
  have "w / H \<le> (1 + u) * (H * nr) / H" by (rule divide_right_mono) (use w(2) pos in simp_all)
  also have "\<dots> = (1 + u) * nr" using pos by simp
  also have "\<dots> \<le> (1 + u) * ((1 + u) * R)" using nr(2) u1 by (intro mult_left_mono) simp_all
  also have "\<dots> \<le> (1 + u) / (1 - u) * R"
  proof -
    have "(1 + u) * (1 - u) \<le> 1" using u by (simp add: algebra_simps)
    then have "(1 + u) * (1 - u) * ((1 + u) * R) \<le> 1 * ((1 + u) * R)"
      using u1 pos by (intro mult_right_mono) simp_all
    then have "(1 + u) * ((1 + u) * R) * (1 - u) \<le> (1 + u) * R" by (simp add: algebra_simps)
    then have "(1 + u) * ((1 + u) * R) \<le> (1 + u) * R / (1 - u)"
      using u1 by (simp add: pos_le_divide_eq)
    then show ?thesis by simp
  qed
  finally show "w / H \<le> (1 + u) / (1 - u) * R" .
qed

subsection \<open>The exponent and the significand of a rounded number\<close>

lemma floor_log2_gt:
  assumes "0 < a"
  shows "a < 2 powi (floor_log2 a + 1)"
proof (cases "1 \<le> a")
  case True
  then have n: "0 < \<lfloor>a\<rfloor>" by simp
  let ?m = "bitlen \<lfloor>a\<rfloor>"
  from bitlen_bounds [OF n] have "\<lfloor>a\<rfloor> < 2 ^ nat ?m" by simp
  then have "\<lfloor>a\<rfloor> + 1 \<le> 2 ^ nat ?m" by simp
  then have "(of_int (\<lfloor>a\<rfloor> + 1) :: rat) \<le> of_int (2 ^ nat ?m)" by (simp only: of_int_le_iff)
  then have "(of_int \<lfloor>a\<rfloor> + 1 :: rat) \<le> 2 ^ nat ?m" by simp
  moreover have "a < of_int \<lfloor>a\<rfloor> + 1" by linarith
  ultimately have "a < 2 ^ nat ?m" by linarith
  moreover have "0 \<le> ?m" by (rule bitlen_nonneg)
  ultimately show ?thesis using True by (simp add: floor_log2_def power_int_def)
next
  case False
  with assms have a: "0 < a" "a < 1" by simp_all
  let ?c = "\<lceil>1 / a\<rceil>"
  from a have "1 < 1 / a" by simp
  then have c2: "2 \<le> ?c" by linarith
  then have pos: "0 < ?c - 1" by simp
  let ?m = "bitlen (?c - 1)"
  have m1: "1 \<le> ?m"
    using pos bitlen_eq_zero_iff [of "?c - 1"] bitlen_nonneg [of "?c - 1"] by linarith
  from bitlen_bounds [OF pos] have "2 ^ nat (?m - 1) \<le> ?c - 1" by simp
  then have "(of_int (2 ^ nat (?m - 1)) :: rat) \<le> of_int (?c - 1)" by (simp only: of_int_le_iff)
  then have "(2 ^ nat (?m - 1) :: rat) \<le> of_int ?c - 1" by simp
  moreover have "of_int ?c - 1 < 1 / a" by linarith
  ultimately have "(2 ^ nat (?m - 1) :: rat) < 1 / a" by linarith
  with a have "2 ^ nat (?m - 1) * a < 1" by (simp add: field_simps)
  then have "a < 1 / 2 ^ nat (?m - 1)" by (simp add: field_simps)
  moreover have "(2 :: rat) powi (- ?m + 1) = 1 / 2 ^ nat (?m - 1)"
    using m1 by (simp add: power_int_def inverse_eq_divide power_one_over)
  ultimately show ?thesis using False by (simp add: floor_log2_def)
qed

lemma floor_log2_unique:
  assumes "2 powi k \<le> a" "a < 2 * 2 powi k"
  shows "floor_log2 a = k"
proof -
  have "0 < (2 :: rat) powi k" by simp
  with assms(1) have a: "0 < a" by linarith
  note lo = floor_log2_le [OF a] and hi = floor_log2_gt [OF a]
  have hk: "a < 2 powi (k + 1)" using assms(2) by (simp add: power_int_add)
  have "k \<le> floor_log2 a"
  proof (rule ccontr)
    assume "\<not> k \<le> floor_log2 a"
    then have "floor_log2 a + 1 \<le> k" by simp
    then have "(2 :: rat) powi (floor_log2 a + 1) \<le> 2 powi k" by (rule power_int_increasing) simp
    with assms(1) hi show False by linarith
  qed
  moreover have "floor_log2 a \<le> k"
  proof (rule ccontr)
    assume "\<not> floor_log2 a \<le> k"
    then have "k + 1 \<le> floor_log2 a" by simp
    then have "(2 :: rat) powi (k + 1) \<le> 2 powi floor_log2 a" by (rule power_int_increasing) simp
    with lo hk show False by linarith
  qed
  ultimately show ?thesis by simp
qed

lemma round_even_near:
  assumes "\<bar>q - of_int n\<bar> < 1 / 2"
  shows "round_even q = n"
proof (cases "of_int n \<le> q")
  case True
  with assms have "\<lfloor>q\<rfloor> = n" by linarith
  moreover from True assms have "q - of_int n < 1 / 2" by simp
  ultimately show ?thesis by (simp add: round_even_def)
next
  case False
  with assms have f: "\<lfloor>q\<rfloor> = n - 1" by linarith
  from False assms have "1 / 2 < q - of_int (n - 1)" by simp
  with f show ?thesis by (simp add: round_even_def)
qed

lemma to_double_near:
  assumes "2 powi k \<le> x" "x < 2 * 2 powi k" "\<bar>x / 2 powi (k - 52) - of_int m\<bar> < 1 / 2"
  shows "to_double x = of_int m * 2 powi (k - 52)"
proof -
  have "0 < (2 :: rat) powi k" by simp
  with assms(1) have x: "0 < x" by linarith
  then have ax: "\<bar>x\<bar> = x" by simp
  have k: "floor_log2 x = k" using assms(1,2) by (rule floor_log2_unique)
  have m: "round_even (x / 2 powi (k - 52)) = m" using assms(3) by (rule round_even_near)
  show ?thesis using x by (simp add: to_double_def Let_def ax k m)
qed

lemma to_double_minus: "to_double (- x) = - to_double x"
  by (simp add: to_double_def Let_def sgn_minus)

subsection \<open>Rounding is monotone and leaves doubles as they are\<close>

lemma round_even_of_int: "round_even (of_int z) = z"
  by (rule round_even_near) simp

lemma round_even_mono:
  assumes "q \<le> q'"
  shows "round_even q \<le> round_even q'"
proof -
  have n: "\<lfloor>q\<rfloor> \<le> \<lfloor>q'\<rfloor>" using assms by (rule floor_mono)
  have lo: "\<lfloor>q'\<rfloor> \<le> round_even q'" by (auto simp: round_even_def Let_def)
  have hi: "round_even q \<le> \<lfloor>q\<rfloor> + 1" by (auto simp: round_even_def Let_def)
  show ?thesis
  proof (cases "\<lfloor>q\<rfloor> = \<lfloor>q'\<rfloor>")
    case True
    with assms have "q - of_int \<lfloor>q\<rfloor> \<le> q' - of_int \<lfloor>q'\<rfloor>" by simp
    with True show ?thesis by (auto simp: round_even_def Let_def)
  next
    case False
    with n have "\<lfloor>q\<rfloor> + 1 \<le> \<lfloor>q'\<rfloor>" by simp
    with lo hi show ?thesis by linarith
  qed
qed

text \<open>The significand of a rounded number lies between \<open>2^52\<close> and \<open>2^53\<close>.\<close>

lemma significand_range:
  assumes "0 < x"
  shows "2 ^ 52 \<le> round_even (x / 2 powi (floor_log2 x - 52))"
    and "round_even (x / 2 powi (floor_log2 x - 52)) \<le> 2 ^ 53"
proof -
  let ?k = "floor_log2 x"
  let ?P = "(2 :: rat) powi (?k - 52)"
  have P: "0 < ?P" by simp
  have Pk: "?P * 2 ^ 52 = 2 powi ?k" by (simp add: power_int_diff)
  from floor_log2_le [OF assms] have "?P * 2 ^ 52 \<le> x" by (simp only: Pk)
  then have "2 ^ 52 \<le> x / ?P" using P by (simp add: pos_le_divide_eq mult.commute)
  then have "(of_int (2 ^ 52) :: rat) \<le> x / ?P" by simp
  from round_even_mono [OF this] show "2 ^ 52 \<le> round_even (x / ?P)"
    by (simp only: round_even_of_int)
  from floor_log2_gt [OF assms] have "x < 2 powi ?k * 2" by (simp add: power_int_add)
  then have "x < ?P * 2 ^ 53" using Pk by simp
  then have "x / ?P \<le> 2 ^ 53" using P by (simp add: pos_divide_le_eq mult.commute)
  then have "x / ?P \<le> (of_int (2 ^ 53) :: rat)" by simp
  from round_even_mono [OF this] show "round_even (x / ?P) \<le> 2 ^ 53"
    by (simp only: round_even_of_int)
qed

lemma to_double_pos_eq:
  assumes "0 < x"
  shows "to_double x = of_int (round_even (x / 2 powi (floor_log2 x - 52))) * 2 powi (floor_log2 x - 52)"
  using assms by (simp add: to_double_def Let_def)

lemma to_double_range:
  assumes "0 < x"
  shows "2 powi floor_log2 x \<le> to_double x" and "to_double x \<le> 2 powi (floor_log2 x + 1)"
proof -
  let ?k = "floor_log2 x"
  let ?P = "(2 :: rat) powi (?k - 52)"
  let ?m = "round_even (x / ?P)"
  have P: "0 < ?P" by simp
  note m = significand_range [OF assms]
  have "(of_int (2 ^ 52) :: rat) \<le> of_int ?m" using m(1) by (simp only: of_int_le_iff)
  then have A: "(2 ^ 52 :: rat) \<le> of_int ?m" by simp
  have "2 ^ 52 * ?P \<le> of_int ?m * ?P" by (rule mult_right_mono [OF A]) simp
  also have "2 ^ 52 * ?P = 2 powi ?k" by (simp add: power_int_diff)
  finally show "2 powi ?k \<le> to_double x" by (simp only: to_double_pos_eq [OF assms])
  have "(of_int ?m :: rat) \<le> of_int (2 ^ 53)" using m(2) by (simp only: of_int_le_iff)
  then have B: "(of_int ?m :: rat) \<le> 2 ^ 53" by simp
  have "of_int ?m * ?P \<le> 2 ^ 53 * ?P" by (rule mult_right_mono [OF B]) simp
  also have "2 ^ 53 * ?P = 2 powi (?k + 1)" by (simp add: power_int_diff power_int_add)
  finally show "to_double x \<le> 2 powi (?k + 1)" by (simp only: to_double_pos_eq [OF assms])
qed

lemma floor_log2_mono:
  assumes "0 < x" "x \<le> y"
  shows "floor_log2 x \<le> floor_log2 y"
proof (rule ccontr)
  assume "\<not> floor_log2 x \<le> floor_log2 y"
  then have "floor_log2 y + 1 \<le> floor_log2 x" by simp
  then have "(2 :: rat) powi (floor_log2 y + 1) \<le> 2 powi floor_log2 x"
    by (rule power_int_increasing) simp
  moreover from assms have y: "0 < y" by simp
  note floor_log2_le [OF assms(1)] floor_log2_gt [OF y]
  ultimately show False using assms(2) by linarith
qed

lemma to_double_mono:
  assumes "0 < x" "x \<le> y"
  shows "to_double x \<le> to_double y"
proof -
  from assms have y: "0 < y" by simp
  note k = floor_log2_mono [OF assms]
  show ?thesis
  proof (cases "floor_log2 x = floor_log2 y")
    case True
    let ?P = "(2 :: rat) powi (floor_log2 y - 52)"
    have P: "0 < ?P" by simp
    from assms(2) P have "x / ?P \<le> y / ?P" by (simp add: divide_right_mono)
    from round_even_mono [OF this]
    have "(of_int (round_even (x / ?P)) :: rat) \<le> of_int (round_even (y / ?P))"
      by (simp only: of_int_le_iff)
    then have "of_int (round_even (x / ?P)) * ?P \<le> of_int (round_even (y / ?P)) * ?P"
      using P by (intro mult_right_mono) simp_all
    then show ?thesis by (simp add: to_double_pos_eq [OF assms(1)] to_double_pos_eq [OF y] True)
  next
    case False
    with k have "floor_log2 x + 1 \<le> floor_log2 y" by simp
    then have "(2 :: rat) powi (floor_log2 x + 1) \<le> 2 powi floor_log2 y"
      by (rule power_int_increasing) simp
    with to_double_range(2) [OF assms(1)] to_double_range(1) [OF y] show ?thesis by linarith
  qed
qed

text \<open>A number with a significand of 53 bits is a double.\<close>

lemma to_double_fixed:
  assumes "2 ^ 52 \<le> m" "m < 2 ^ 53"
  shows "to_double (of_int m * 2 powi e) = of_int m * 2 powi e"
proof -
  let ?x = "of_int m * (2 :: rat) powi e"
  have P: "0 < (2 :: rat) powi e" by simp
  have "(of_int (2 ^ 52) :: rat) \<le> of_int m" using assms(1) by (simp only: of_int_le_iff)
  then have "2 ^ 52 * 2 powi e \<le> ?x" using P by (intro mult_right_mono) simp_all
  then have a: "2 powi (e + 52) \<le> ?x" by (simp add: power_int_add mult.commute)
  have "(of_int m :: rat) < of_int (2 ^ 53)" using assms(2) by (simp only: of_int_less_iff)
  then have "?x < 2 ^ 53 * 2 powi e" using P by (intro mult_strict_right_mono) simp_all
  then have b: "?x < 2 * 2 powi (e + 52)" by (simp add: power_int_add mult.commute)
  have c: "\<bar>?x / 2 powi (e + 52 - 52) - of_int m\<bar> < 1 / 2" by simp
  from to_double_near [OF a b c] show ?thesis by simp
qed

lemma to_double_idem:
  assumes "0 < x"
  shows "to_double (to_double x) = to_double x"
proof -
  define e where "e = floor_log2 x - 52"
  define m where "m = round_even (x / 2 powi e)"
  have m: "2 ^ 52 \<le> m" "m \<le> 2 ^ 53"
    using significand_range [OF assms] by (simp_all add: m_def e_def)
  have td: "to_double x = of_int m * 2 powi e"
    using to_double_pos_eq [OF assms] by (simp add: m_def e_def)
  show ?thesis
  proof (cases "m = 2 ^ 53")
    case True
    have "(2 :: rat) powi (e + 1) = 2 powi e * 2" by (simp add: power_int_add)
    then have "to_double x = of_int (2 ^ 52) * 2 powi (e + 1)"
      by (simp add: td True)
    moreover have "to_double (of_int (2 ^ 52) * 2 powi (e + 1)) = of_int (2 ^ 52) * 2 powi (e + 1)"
      by (rule to_double_fixed) simp_all
    ultimately show ?thesis by (simp only:)
  next
    case False
    with m(2) have "m < 2 ^ 53" by simp
    from to_double_fixed [OF m(1) this, of e] show ?thesis by (simp only: td)
  qed
qed

text \<open>A positive integer below \<open>2^53\<close> is a double.\<close>

lemma to_double_of_nat:
  assumes "0 < n" "n < 2 ^ 53"
  shows "to_double (of_nat n) = of_nat n"
proof -
  let ?x = "of_nat n :: rat"
  let ?k = "floor_log2 ?x"
  from assms have x: "0 < ?x" by simp
  note lo = floor_log2_le [OF x] and hi = floor_log2_gt [OF x]
  have k52: "?k \<le> 52"
  proof (rule ccontr)
    assume "\<not> ?k \<le> 52"
    then have "53 \<le> ?k" by simp
    then have "(2 :: rat) powi 53 \<le> 2 powi ?k" by (rule power_int_increasing) simp
    with lo have "(2 :: rat) ^ 53 \<le> of_nat n" by simp
    then have "(of_nat (2 ^ 53) :: rat) \<le> of_nat n" by simp
    then have "2 ^ 53 \<le> n" by (simp only: of_nat_le_iff)
    with assms(2) show False by simp
  qed
  have P: "(2 :: rat) powi (?k - 52) = 1 / 2 ^ nat (52 - ?k)"
    using k52 by (simp add: power_int_def inverse_eq_divide power_one_over)
  have hi2: "?x < 2 * 2 powi ?k" using hi by (simp add: power_int_add)
  have c: "\<bar>?x / 2 powi (?k - 52) - of_int (int n * 2 ^ nat (52 - ?k))\<bar> < 1 / 2"
    by (simp add: P)
  from to_double_near [OF lo hi2 c] show ?thesis by (simp add: P)
qed

text \<open>Halving a double is exact.\<close>

lemma to_double_half_pos:
  assumes "0 < x"
  shows "to_double (x / 2) = to_double x / 2"
proof -
  define k where "k = floor_log2 x"
  define P where "P = (2 :: rat) powi (k - 52)"
  have P: "0 < P" by (simp add: P_def)
  have lo: "2 powi k \<le> x" unfolding k_def by (rule floor_log2_le [OF assms])
  have hi: "x < 2 * 2 powi k" using floor_log2_gt [OF assms] by (simp add: k_def power_int_add)
  have p: "(2 :: rat) powi (k - 1) = 2 powi k / 2" by (simp add: power_int_diff)
  have k': "floor_log2 (x / 2) = k - 1"
    by (rule floor_log2_unique) (use lo hi in \<open>simp_all add: p\<close>)
  have "(2 :: rat) powi (k - 1 - 52) = 2 powi (k - 52) / 2" by (simp add: power_int_diff)
  then have P': "(2 :: rat) powi (floor_log2 (x / 2) - 52) = P / 2" by (simp only: k' P_def)
  have q: "x / 2 / (P / 2) = x / P" by simp
  from assms have "0 < x / 2" by simp
  from to_double_pos_eq [OF this]
  have "to_double (x / 2) = of_int (round_even (x / P)) * (P / 2)" by (simp only: P' q)
  moreover from to_double_pos_eq [OF assms]
  have "to_double x = of_int (round_even (x / P)) * P" by (simp only: k_def P_def)
  ultimately show ?thesis by simp
qed

lemma to_double_half: "to_double (x / 2) = to_double x / 2"
proof -
  consider "0 < x" | "x = 0" | "0 < - x" by linarith
  then show ?thesis
  proof cases
    case 1
    then show ?thesis by (rule to_double_half_pos)
  next
    case 2
    then show ?thesis by (simp add: to_double_def)
  next
    case 3
    from to_double_half_pos [OF this] have "to_double (- (x / 2)) = to_double (- x) / 2" by simp
    then show ?thesis by (simp only: to_double_minus minus_divide_left [symmetric] neg_equal_iff_equal)
  qed
qed

lemma to_double_idem_all: "to_double (to_double x) = to_double x"
proof -
  consider "0 < x" | "x = 0" | "0 < - x" by linarith
  then show ?thesis
  proof cases
    case 1
    then show ?thesis by (rule to_double_idem)
  next
    case 2
    then show ?thesis by (simp add: to_double_def)
  next
    case 3
    from to_double_idem [OF this] show ?thesis by (simp add: to_double_minus)
  qed
qed

lemma to_double_halved: "to_double (to_double d / 2) = to_double d / 2"
  by (simp only: to_double_half to_double_idem_all)

lemma centred_to_double: "centred (to_double (to_double (c - e) / 2)) c e"
proof -
  have "\<bar>to_double (c - e) / 2 - (c - e) / 2\<bar> = \<bar>to_double (c - e) - (c - e)\<bar> / 2"
    by (simp add: diff_divide_distrib [symmetric])
  also have "\<dots> \<le> unit_roundoff * \<bar>c - e\<bar> / 2"
    using to_double_error [of "c - e"] by (simp add: divide_right_mono)
  finally show ?thesis by (simp add: centred_def to_double_halved)
qed

text \<open>
  In the branch that fills the width the image is really the wider one, so the height
  computed is at most the container's.
\<close>

lemma width_filled_height:
  assumes "0 < clientWidth" "0 < clientHeight" "clientHeight < 2 ^ 53" "0 < R"
    and lt: "to_double (of_nat clientWidth / of_nat clientHeight) < to_double R"
  shows "to_double (of_nat clientWidth / to_double R) \<le> of_nat clientHeight"
proof -
  let ?W = "of_nat clientWidth :: rat" and ?H = "of_nat clientHeight :: rat"
  let ?nr = "to_double R"
  have pos: "0 < ?W" "0 < ?H" using assms by simp_all
  have nrpos: "0 < ?nr" using assms(4) by (rule to_double_pos)
  have gt: "?W / ?H < ?nr"
  proof (rule ccontr)
    assume "\<not> ?W / ?H < ?nr"
    then have "?nr \<le> ?W / ?H" by simp
    from to_double_mono [OF nrpos this] have "?nr \<le> to_double (?W / ?H)"
      by (simp only: to_double_idem [OF assms(4)])
    with lt show False by simp
  qed
  then have "?W < ?nr * ?H" using pos by (simp add: pos_divide_less_eq)
  then have "?W / ?nr < ?H" using nrpos by (simp add: pos_divide_less_eq mult.commute)
  then have le: "?W / ?nr \<le> ?H" by simp
  have "0 < ?W / ?nr" using pos nrpos by simp
  from to_double_mono [OF this le] show ?thesis
    by (simp only: to_double_of_nat [OF assms(2,3)])
qed

subsection \<open>Evaluating \<open>handleResize\<close>\<close>

lemma handleResize_width_filled:
  assumes "naturalWidth \<noteq> 0" "naturalHeight \<noteq> 0" "clientHeight \<noteq> 0"
    and "to_double (of_nat naturalWidth / of_nat naturalHeight) = naturalRatio"
    and "to_double (of_nat clientWidth / of_nat clientHeight) = clientRatio"
    and "clientRatio < naturalRatio"
    and "of_nat clientWidth = w"
    and "to_double (of_nat clientWidth / naturalRatio) = h"
    and "to_double (of_nat clientHeight - h) = d"
    and "to_double (d / 2) = t"
  shows "handleResize clientWidth clientHeight naturalWidth naturalHeight
           = Some \<lparr> width = w, height = h, top' = t, left = 0 \<rparr>"
  using assms by (simp add: handleResize_def)

lemma handleResize_height_filled:
  assumes "naturalWidth \<noteq> 0" "naturalHeight \<noteq> 0"
    and "to_double (of_nat naturalWidth / of_nat naturalHeight) = naturalRatio"
    and "clientHeight \<noteq> 0
           \<Longrightarrow> to_double (of_nat clientWidth / of_nat clientHeight) = clientRatio"
    and "clientHeight \<noteq> 0 \<Longrightarrow> naturalRatio \<le> clientRatio"
    and "of_nat clientHeight = h"
    and "to_double (of_nat clientHeight * naturalRatio) = w"
    and "to_double (of_nat clientWidth - w) = d"
    and "to_double (d / 2) = l"
  shows "handleResize clientWidth clientHeight naturalWidth naturalHeight
           = Some \<lparr> width = w, height = h, top' = 0, left = l \<rparr>"
proof (cases "clientHeight = 0")
  case True
  with assms show ?thesis by (simp add: handleResize_def)
next
  case False
  with assms(4,5) have "\<not> to_double (of_nat clientWidth / of_nat clientHeight)
      < to_double (of_nat naturalWidth / of_nat naturalHeight)"
    by (simp add: assms(3))
  with assms show ?thesis by (simp add: handleResize_def)
qed

lemma handleResize_fill_width:
  "handleResize 400 400 800 600
     = Some \<lparr> width = 400, height = 300, top' = 50, left = 0 \<rparr>"
proof (rule handleResize_width_filled)
  show "to_double (of_nat 800 / of_nat 600) = 6004799503160661 / 2 ^ 52"
    using to_double_near [of 0 "800 / 600" 6004799503160661] by simp
  show "to_double (of_nat 400 / of_nat 400) = 1"
    using to_double_near [of 0 1 "2 ^ 52"] by simp
  show "to_double (of_nat 400 / (6004799503160661 / 2 ^ 52)) = 300"
    using to_double_near [of 8 "400 / (6004799503160661 / 2 ^ 52)" "300 * 2 ^ 44"] by simp
  show "to_double (of_nat 400 - 300) = 100"
    using to_double_near [of 6 100 "100 * 2 ^ 46"] by simp
  show "to_double (100 / 2) = 50"
    using to_double_near [of 5 50 "50 * 2 ^ 47"] by simp
qed simp_all

lemma handleResize_equal_ratio:
  "handleResize 3 187 3 187
     = Some \<lparr> width = 3 + 1 / 2 ^ 51, height = 187, top' = 0, left = - (1 / 2 ^ 52) \<rparr>"
proof (rule handleResize_height_filled)
  show "to_double (of_nat 3 / of_nat 187) = 4624016729706606 / 2 ^ 58"
    using to_double_near [of "- 6" "3 / 187" 4624016729706606] by simp
  then show "to_double (of_nat 3 / of_nat 187) = 4624016729706606 / 2 ^ 58" .
  show "to_double (of_nat 187 * (4624016729706606 / 2 ^ 58)) = 3 + 1 / 2 ^ 51"
    using to_double_near [of 1 "187 * (4624016729706606 / 2 ^ 58)" 6755399441055745] by simp
  have "to_double (1 / 2 ^ 51) = 1 / 2 ^ 51"
    using to_double_near [of "- 51" "1 / 2 ^ 51" "2 ^ 52"] by simp
  then show "to_double (of_nat 3 - (3 + 1 / 2 ^ 51)) = - (1 / 2 ^ 51)"
    using to_double_minus [of "1 / 2 ^ 51"] by simp
  have "to_double (1 / 2 ^ 52) = 1 / 2 ^ 52"
    using to_double_near [of "- 52" "1 / 2 ^ 52" "2 ^ 52"] by simp
  then show "to_double (- (1 / 2 ^ 51) / 2) = - (1 / 2 ^ 52)"
    using to_double_minus [of "1 / 2 ^ 52"] by simp
qed simp_all

section \<open>The properties of the specification\<close>



text \<open>
  C2. Whenever the active image is absent or the effective prompt is empty, a run of
  \<open>handleGenerate\<close> sends no request to the backend and passes through one state only,
  the state it started in with the precondition message as its error: the loading flag
  is not set, it keeps its value, as does the stored result.
\<close>

theorem start_guard:
  assumes "image s = None \<or> effective_prompt promptOverride s = []"
  shows "handleGenerate ai promptOverride s
           = ([s\<lparr>error := Some ''Please upload an image and provide a prompt.''\<rparr>], [])
       \<and> snd (handleGenerate_start promptOverride s) = None
       \<and> error (fst (handleGenerate_start promptOverride s))
            = Some ''Please upload an image and provide a prompt.''
       \<and> isLoading (fst (handleGenerate_start promptOverride s)) = isLoading s
       \<and> resultImage (fst (handleGenerate_start promptOverride s)) = resultImage s"
  by (simp add: handleGenerate_def handleGenerate_start_guard [OF assms])

text \<open>
  Before any upload a prompt alone is refused, and after an upload an empty prompt is,
  whatever the backend would answer.
\<close>

theorem start_guard_example:
  "\<forall>ai. (image initial = None \<or> effective_prompt (Some ''Make it blue'') initial = [])
     \<and> handleGenerate ai (Some ''Make it blue'') initial
          = ([initial\<lparr>error := Some ''Please upload an image and provide a prompt.''\<rparr>], [])
     \<and> (image (setPrompt [] ready) = None \<or> effective_prompt (Some []) (setPrompt [] ready) = [])
     \<and> handleGenerate ai (Some []) (setPrompt [] ready)
          = ([setPrompt [] ready\<lparr>error := Some ''Please upload an image and provide a prompt.''\<rparr>], [])"
proof
  fix ai
  have a: "image initial = None \<or> effective_prompt (Some ''Make it blue'') initial = []"
    by (simp add: initial_def)
  have b: "image (setPrompt [] ready) = None \<or> effective_prompt (Some []) (setPrompt [] ready) = []"
    by (simp add: effective_prompt_def setPrompt_def)
  from start_guard [OF a, of ai] start_guard [OF b, of ai] a b
  show "(image initial = None \<or> effective_prompt (Some ''Make it blue'') initial = [])
     \<and> handleGenerate ai (Some ''Make it blue'') initial
          = ([initial\<lparr>error := Some ''Please upload an image and provide a prompt.''\<rparr>], [])
     \<and> (image (setPrompt [] ready) = None \<or> effective_prompt (Some []) (setPrompt [] ready) = [])
     \<and> handleGenerate ai (Some []) (setPrompt [] ready)
          = ([setPrompt [] ready\<lparr>error := Some ''Please upload an image and provide a prompt.''\<rparr>], [])"
    by blast
qed

text \<open>
  C3. For both detection calls: a response whose text is empty after trimming yields the
  empty region list; a response whose text \<open>JSON.parse\<close> rejects yields the error of the
  call, not the empty list; and a rejected backend call yields the error of the call.
\<close>

theorem detection_outcomes:
  "(response_text resp = Some t \<and> trim t = [] \<longrightarrow>
      detectObjects (\<lambda>req. Resolved resp) parse imageData type = Inr (JArray [])
      \<and> detectWatermarkText (\<lambda>req. Resolved resp) parse imageData type = Inr (JArray []))
   \<and> (response_text resp = Some t \<and> trim t \<noteq> [] \<and> parse (trim t) = None \<longrightarrow>
      detectObjects (\<lambda>req. Resolved resp) parse imageData type
        = Inl (Error detect_objects_failed)
      \<and> detectWatermarkText (\<lambda>req. Resolved resp) parse imageData type
        = Inl (Error detect_text_failed))
   \<and> detectObjects (\<lambda>req. Rejected) parse imageData type = Inl (Error detect_objects_failed)
   \<and> detectWatermarkText (\<lambda>req. Rejected) parse imageData type = Inl (Error detect_text_failed)"
  by (simp add: detectObjects_def detectWatermarkText_def detection_try_empty
      detection_try_unparseable)

text \<open>A blank text, whatever \<open>JSON.parse\<close> is, and a text that is not JSON.\<close>

theorem detection_outcomes_example:
  "\<forall>parse.
     trim [CHR 0x20, CHR 0x0A] = []
     \<and> detectObjects (text_answer [CHR 0x20, CHR 0x0A]) parse (Some ''AAAA'') ''image/png''
          = Inr (JArray [])
     \<and> trim ''not json'' \<noteq> [] \<and> example_parse (trim ''not json'') = None
     \<and> detectWatermarkText (text_answer ''not json'') example_parse (Some ''AAAA'') ''image/png''
          = Inl (Error detect_text_failed)"
proof
  fix parse :: "string \<Rightarrow> json option"
  have a: "response_text \<lparr>response_text = Some [CHR 0x20, CHR 0x0A]\<rparr> = Some [CHR 0x20, CHR 0x0A]"
    by simp
  have b: "response_text \<lparr>response_text = Some ''not json''\<rparr> = Some ''not json''"
    by simp
  have c: "trim ''not json'' \<noteq> []" by (simp add: trim_examples)
  have d: "example_parse (trim ''not json'') = None"
    by (simp add: trim_examples example_parse_def)
  from detection_outcomes [of "\<lparr>response_text = Some [CHR 0x20, CHR 0x0A]\<rparr>"
      "[CHR 0x20, CHR 0x0A]" parse "Some ''AAAA''" "''image/png''"] a trim_blank
  have e: "detectObjects (text_answer [CHR 0x20, CHR 0x0A]) parse (Some ''AAAA'') ''image/png''
             = Inr (JArray [])"
    unfolding text_answer_def [abs_def] by blast
  from detection_outcomes [of "\<lparr>response_text = Some ''not json''\<rparr>" "''not json''"
      example_parse "Some ''AAAA''" "''image/png''"] b c d
  have f: "detectWatermarkText (text_answer ''not json'') example_parse (Some ''AAAA'') ''image/png''
             = Inl (Error detect_text_failed)"
    unfolding text_answer_def [abs_def] by blast
  show "trim [CHR 0x20, CHR 0x0A] = []
     \<and> detectObjects (text_answer [CHR 0x20, CHR 0x0A]) parse (Some ''AAAA'') ''image/png''
          = Inr (JArray [])
     \<and> trim ''not json'' \<noteq> [] \<and> example_parse (trim ''not json'') = None
     \<and> detectWatermarkText (text_answer ''not json'') example_parse (Some ''AAAA'') ''image/png''
          = Inl (Error detect_text_failed)"
    by (intro conjI trim_blank e c d f)
qed

text \<open>
  The text \<open>not json\<close> cannot be parsed, and object detection answers it with its error,
  not with the empty list.
\<close>

theorem detection_unparseable_counterexample:
  "example_parse (trim ''not json'') = None
   \<and> detectObjects (text_answer ''not json'') example_parse (Some ''AAAA'') ''image/png''
        = Inl (Error detect_objects_failed)
   \<and> detectObjects (text_answer ''not json'') example_parse (Some ''AAAA'') ''image/png''
        \<noteq> Inr (JArray [])"
  by (simp add: detectObjects_def detection_try_def trim_examples example_parse_def
      text_answer_def)

text \<open>
  C4. The data model's equality of two regions is structural: the labels are equal and
  the four coordinates \<open>x_min\<close>, \<open>y_min\<close>, \<open>x_max\<close>, \<open>y_max\<close> are equal, and nothing else
  counts. The equality the selection uses, \<open>areObjectsEqual\<close>, compares the
  \<open>JSON.stringify\<close> texts of the two bounding boxes, and these list the properties in the
  order each object has them. So the two disagree: the region \<open>cat\<close> and its copy whose
  bounding box has the properties in the order \<open>y_min, x_min, y_max, x_max\<close> are
  structurally equal, and \<open>areObjectsEqual\<close> returns false for them, whatever
  \<open>Number::toString\<close> prints.
\<close>

theorem region_equality_diverges:
  "\<forall>toStr. structurally_equal example_region example_region_reordered
     \<and> \<not> areObjectsEqual toStr example_region example_region_reordered"
  by (simp add: structurally_equal_def example_region_reordered_def example_region_def
      areObjectsEqual_def JSON_stringify_def stringify_property_def)

text \<open>
  C5. The contract of the toggle removes the structurally equal region when the selection
  holds one, and appends the region otherwise. \<open>handleObjectSelect\<close> looks for the region
  with \<open>areObjectsEqual\<close>. Toggling the reordered copy of the region \<open>cat\<close> in the
  selection that holds \<open>cat\<close> is to leave the empty selection; \<open>handleObjectSelect\<close>
  returns the selection with the copy appended, which then holds two structurally equal
  regions.
\<close>

theorem toggle_diverges:
  "\<forall>toStr. structurally_equal example_region example_region_reordered
     \<and> toggle_contract example_region_reordered [example_region] = []
     \<and> handleObjectSelect toStr example_region_reordered [example_region]
         = [example_region, example_region_reordered]"
  by (simp add: toggle_contract_def structurally_equal_def example_region_reordered_def
      example_region_def handleObjectSelect_def areObjectsEqual_def JSON_stringify_def
      stringify_property_def)

text \<open>
  C6. Every attempt of \<open>handleGenerate\<close> that passes its guard enters pending with the
  loading flag set and the prior result and error cleared. While it awaits the backend,
  whatever the handlers that stay enabled do, the loading flag stays set and no result
  image is stored; they can store an error. The attempt ends with the loading flag off
  and with a result image or an error message stored, never neither: a failed request
  leaves no result image, and exactly one of the two is stored when no error was stored
  at the time the backend answered, in particular when no other handler ran. An attempt
  of \<open>handleGenerateBackground\<close> with a prompt sends that prompt and enters pending with
  its own flag set and the prior error cleared, keeping the background generated before;
  its completion turns the flag off in whatever state it finds.
\<close>

theorem interleaved_attempt:
  "(image s \<noteq> None \<and> effective_prompt promptOverride s \<noteq> [] \<longrightarrow>
      length (fst (handleGenerate_interleaved toStr ai promptOverride events s)) = length events + 2
      \<and> isLoading (hd (fst (handleGenerate_interleaved toStr ai promptOverride events s)))
      \<and> resultImage (hd (fst (handleGenerate_interleaved toStr ai promptOverride events s))) = None
      \<and> error (hd (fst (handleGenerate_interleaved toStr ai promptOverride events s))) = None
      \<and> list_all (\<lambda>t. isLoading t \<and> resultImage t = None)
           (butlast (fst (handleGenerate_interleaved toStr ai promptOverride events s)))
      \<and> \<not> isLoading (last (fst (handleGenerate_interleaved toStr ai promptOverride events s)))
      \<and> \<not> (resultImage (last (fst (handleGenerate_interleaved toStr ai promptOverride events s))) = None
           \<and> error (last (fst (handleGenerate_interleaved toStr ai promptOverride events s))) = None)
      \<and> (\<forall>req e. snd (handleGenerate_start promptOverride s) = Some req
             \<and> editImage ai (base64ImageData req) (mimeType req) (request_prompt req) = Inl e \<longrightarrow>
           resultImage (last (fst (handleGenerate_interleaved toStr ai promptOverride events s))) = None)
      \<and> (error (last (butlast (fst (handleGenerate_interleaved toStr ai promptOverride events s)))) = None
            \<or> events = [] \<longrightarrow>
          (resultImage (last (fst (handleGenerate_interleaved toStr ai promptOverride events s))) = None)
            \<noteq> (error (last (fst (handleGenerate_interleaved toStr ai promptOverride events s))) = None)))
   \<and> (backgroundPrompt s \<noteq> [] \<longrightarrow>
      snd (handleGenerateBackground_start s) = Some (backgroundPrompt s)
      \<and> isGeneratingBg (fst (handleGenerateBackground_start s))
      \<and> error (fst (handleGenerateBackground_start s)) = None
      \<and> generatedBackground (fst (handleGenerateBackground_start s)) = generatedBackground s)
   \<and> \<not> isGeneratingBg (handleGenerateBackground_settle outcome s')"
proof (intro conjI impI)
  assume a: "image s \<noteq> None \<and> effective_prompt promptOverride s \<noteq> []"
  let ?p = "s\<lparr>isLoading := True, error := None, resultImage := None\<rparr>"
  let ?w = "waiting toStr events ?p"
  let ?A = "fst (handleGenerate_interleaved toStr ai promptOverride events s)"
  from a start_Some [of s promptOverride] obtain req where
    req: "snd (handleGenerate_start promptOverride s) = Some req" by blast
  let ?o = "editImage ai (base64ImageData req) (mimeType req) (request_prompt req)"
  have A: "?A = ?w @ [handleGenerate_settle ?o (last ?w)]"
    by (simp add: interleaved_run [OF req])
  have p: "isLoading ?p" "resultImage ?p = None" "error ?p = None" by simp_all
  have hdA: "hd ?A = ?p" by (simp add: A waiting_nonempty waiting_hd)
  have lastA: "last ?A = handleGenerate_settle ?o (last ?w)" by (simp add: A)
  have butA: "butlast ?A = ?w" by (simp add: A)
  note wl = waiting_last [OF p(1,2), of toStr events]
  show "length ?A = length events + 2" by (simp add: A waiting_length)
  show "isLoading (hd ?A)" by (simp add: hdA)
  show "resultImage (hd ?A) = None" by (simp add: hdA)
  show "error (hd ?A) = None" by (simp add: hdA)
  show "list_all (\<lambda>t. isLoading t \<and> resultImage t = None) (butlast ?A)"
    unfolding butA by (rule waiting_invariant [OF p(1,2)])
  show "\<not> isLoading (last ?A)" by (simp add: lastA settle_not_loading)
  show "\<not> (resultImage (last ?A) = None \<and> error (last ?A) = None)"
  proof (cases ?o)
    case (Inl e)
    then show ?thesis using settle_failed_error [of e "last ?w"] by (simp add: lastA)
  next
    case (Inr b)
    then show ?thesis by (simp add: lastA settle_outcome)
  qed
  show "\<forall>r e. snd (handleGenerate_start promptOverride s) = Some r
             \<and> editImage ai (base64ImageData r) (mimeType r) (request_prompt r) = Inl e \<longrightarrow>
           resultImage (last ?A) = None"
    using req wl(2) by (auto simp: lastA settle_outcome)
  assume "error (last (butlast ?A)) = None \<or> events = []"
  then have "error (last ?w) = None"
    unfolding butA by (auto simp: p)
  with wl(2) show "(resultImage (last ?A) = None) \<noteq> (error (last ?A) = None)"
    unfolding lastA by (intro settle_exactly_one)
next
  assume b: "backgroundPrompt s \<noteq> []"
  then show "snd (handleGenerateBackground_start s) = Some (backgroundPrompt s)"
    "isGeneratingBg (fst (handleGenerateBackground_start s))"
    "error (fst (handleGenerateBackground_start s)) = None"
    "generatedBackground (fst (handleGenerateBackground_start s)) = generatedBackground s"
    by (simp_all add: handleGenerateBackground_start_def)
next
  show "\<not> isGeneratingBg (handleGenerateBackground_settle outcome s')"
    by (rule background_settle_not_generating)
qed

text \<open>
  The upload answered with the image while a region was selected and the compositor's
  prompt edited, and the first background.
\<close>

theorem interleaved_attempt_example:
  "\<forall>toStr.
     image ready \<noteq> None \<and> effective_prompt None ready \<noteq> []
     \<and> length (fst (handleGenerate_interleaved toStr (\<lambda>req. Resolved image_response) None
          [ObjectSelect example_region2, BackgroundPrompt ''A mountain landscape at sunrise''] ready)) = 4
     \<and> resultImage (last (fst (handleGenerate_interleaved toStr (\<lambda>req. Resolved image_response) None
          [ObjectSelect example_region2, BackgroundPrompt ''A mountain landscape at sunrise''] ready)))
         = Some ''data:image/png;base64,BBBB''
     \<and> error (last (fst (handleGenerate_interleaved toStr (\<lambda>req. Resolved image_response) None
          [ObjectSelect example_region2, BackgroundPrompt ''A mountain landscape at sunrise''] ready)))
         = None
     \<and> \<not> isLoading (last (fst (handleGenerate_interleaved toStr (\<lambda>req. Resolved image_response) None
          [ObjectSelect example_region2, BackgroundPrompt ''A mountain landscape at sunrise''] ready)))
     \<and> backgroundPrompt ready \<noteq> []
     \<and> isGeneratingBg (fst (handleGenerateBackground_start ready))
     \<and> \<not> isGeneratingBg background_done"
proof
  fix toStr
  let ?evs = "[ObjectSelect example_region2, BackgroundPrompt ''A mountain landscape at sunrise'']"
  let ?A = "fst (handleGenerate_interleaved toStr (\<lambda>req. Resolved image_response) None ?evs ready)"
  have a: "image ready \<noteq> None \<and> effective_prompt None ready \<noteq> []"
    by (simp add: ready_fields ready_effective)
  have b: "backgroundPrompt ready \<noteq> []"
    by (simp add: ready_def setPrompt_def handleFileChange_def initial_def)
  note T = interleaved_attempt [of ready None toStr "\<lambda>req. Resolved image_response" ?evs
      "generateImageFromPrompt (\<lambda>p. Resolved image_response) (backgroundPrompt initial)"
      "fst (handleGenerateBackground_start initial)"]
  from T a have len: "length ?A = length ?evs + 2" by blast
  then have l4: "length ?A = 4" by simp
  from T a have nl: "\<not> isLoading (last ?A)" by blast
  have r: "resultImage (last ?A) = Some ''data:image/png;base64,BBBB''"
    by (simp add: ready_interleaved handleGenerate_settle_def)
  have w: "error (last (butlast ?A)) = None"
    by (simp add: ready_interleaved ready_fields)
  note C = T [THEN conjunct1, THEN mp, OF a]
  have "(resultImage (last ?A) = None) \<noteq> (error (last ?A) = None)"
    by (rule C [THEN conjunct2, THEN conjunct2, THEN conjunct2, THEN conjunct2, THEN conjunct2,
          THEN conjunct2, THEN conjunct2, THEN conjunct2, THEN mp, OF disjI1, OF w])
  with r have e: "error (last ?A) = None" by simp
  from T b have g: "isGeneratingBg (fst (handleGenerateBackground_start ready))" by blast
  from T [THEN conjunct2, THEN conjunct2] have ng: "\<not> isGeneratingBg background_done"
    unfolding background_done_def .
  show "image ready \<noteq> None \<and> effective_prompt None ready \<noteq> []
     \<and> length ?A = 4
     \<and> resultImage (last ?A) = Some ''data:image/png;base64,BBBB''
     \<and> error (last ?A) = None
     \<and> \<not> isLoading (last ?A)
     \<and> backgroundPrompt ready \<noteq> []
     \<and> isGeneratingBg (fst (handleGenerateBackground_start ready))
     \<and> \<not> isGeneratingBg background_done"
    using a l4 r e nl b g ng by blast
qed

text \<open>
  Over all reachable states the three are not mutually exclusive. After a successful
  generation, a quick action with nothing selected stores its error next to the result
  image. An attempt during whose wait Generate Background was pressed with an empty
  prompt ends with the result image and that handler's error both stored. And a second
  background attempt is pending while the first background is still stored.
\<close>

theorem generation_states_counterexample:
  "\<forall>toStr.
     resultImage (fst (handleQuickEdit toStr vintageFilter succeeded))
       = Some ''data:image/png;base64,BBBB''
     \<and> error (fst (handleQuickEdit toStr vintageFilter succeeded))
       = Some ''Please select exactly one object for this action.''
     \<and> resultImage (last (fst (handleGenerate_interleaved toStr (\<lambda>req. Resolved image_response) None
          [BackgroundPrompt [], GenerateBackground] ready)))
       = Some ''data:image/png;base64,BBBB''
     \<and> error (last (fst (handleGenerate_interleaved toStr (\<lambda>req. Resolved image_response) None
          [BackgroundPrompt [], GenerateBackground] ready)))
       = Some ''Please enter a prompt for the background.''
     \<and> isGeneratingBg (fst (handleGenerateBackground_start background_done))
     \<and> generatedBackground (fst (handleGenerateBackground_start background_done))
       = Some ''data:image/png;base64,BBBB''"
  by (simp add: handleQuickEdit_def succeeded_fields ready_interleaved handleGenerate_settle_def
      handleGenerateBackground_start_def background_done_fields)

text \<open>
  C7. When \<open>handleGenerate\<close> has sent its request and the backend resolves with a response
  that has no candidates, or no inline image data in the parts of its candidates,
  \<open>editImage\<close> throws its error and the run ends in the failed state: the error message
  is stored, no result image is, and the loading flag is off.
\<close>

theorem no_image_fails:
  assumes "snd (handleGenerate_start promptOverride s) = Some req"
    and "ai req = Resolved resp" and "no_image_data resp"
  shows "editImage ai (base64ImageData req) (mimeType req) (request_prompt req)
           = Inl (Error edit_failed)
       \<and> snd (handleGenerate ai promptOverride s) = [req]
       \<and> length (fst (handleGenerate ai promptOverride s)) = 2
       \<and> error (last (fst (handleGenerate ai promptOverride s))) = Some edit_failed
       \<and> resultImage (last (fst (handleGenerate ai promptOverride s))) = None
       \<and> \<not> isLoading (last (fst (handleGenerate ai promptOverride s)))"
proof -
  have e: "editImage ai (base64ImageData req) (mimeType req) (request_prompt req)
             = Inl (Error edit_failed)"
    using editImage_no_image [of ai "base64ImageData req" "mimeType req" "request_prompt req" resp]
      assms(2,3) by (simp add: request_eta)
  show ?thesis
    by (simp add: e handleGenerate_def handleGenerate_start_cases [OF assms(1)]
        handleGenerate_settle_def)
qed

text \<open>The uploaded image with its prompt, answered by a response without candidates.\<close>

theorem no_image_fails_example:
  "snd (handleGenerate_start None ready)
     = Some \<lparr> base64ImageData = Some ''AAAA'', mimeType = ''image/png'',
              request_prompt = ''Add a retro, vintage filter.'' \<rparr>
   \<and> no_image_data empty_response
   \<and> error (last (fst (handleGenerate (\<lambda>req. Resolved empty_response) None ready)))
        = Some edit_failed
   \<and> resultImage (last (fst (handleGenerate (\<lambda>req. Resolved empty_response) None ready))) = None
   \<and> \<not> isLoading (last (fst (handleGenerate (\<lambda>req. Resolved empty_response) None ready)))"
proof -
  have "(\<lambda>req. Resolved empty_response)
          \<lparr> base64ImageData = Some ''AAAA'', mimeType = ''image/png'',
            request_prompt = ''Add a retro, vintage filter.'' \<rparr> = Resolved empty_response"
    by simp
  from no_image_fails [OF ready_request this no_image_empty_response]
    ready_request no_image_empty_response
  show ?thesis by blast
qed

text \<open>
  C8. For positive dimensions of the container and of the image, each below \<open>2^53\<close> (an
  integer that a double holds exactly), \<open>handleResize\<close> sets a geometry of positive width
  and height in which the rectangle fills one axis and is centred on the other: either the
  width is the container's, \<open>left\<close> is zero and \<open>top\<close> is half of the height left free, or
  the height is the container's, \<open>top\<close> is zero and \<open>left\<close> is half of the width left free,
  each half up to the rounding of the difference (\<open>u / 2\<close> of it). The height is at most the
  container's. With \<open>u = 2^-53\<close>, the width is at most \<open>(1 + u)\<^sup>2\<close> times the container's
  width, and the ratio of width to height lies between \<open>(1 - u)\<^sup>2\<close> times and
  \<open>(1 + u) / (1 - u)\<close> times the ratio of the image.
\<close>

theorem render_geometry:
  assumes "0 < clientWidth" "clientWidth < 2 ^ 53" "0 < clientHeight" "clientHeight < 2 ^ 53"
    and "0 < naturalWidth" "naturalWidth < 2 ^ 53" "0 < naturalHeight" "naturalHeight < 2 ^ 53"
  shows "\<exists>g. handleResize clientWidth clientHeight naturalWidth naturalHeight = Some g
     \<and> 0 < width g \<and> 0 < height g
     \<and> width g \<le> (1 + unit_roundoff)\<^sup>2 * of_nat clientWidth
     \<and> height g \<le> of_nat clientHeight
     \<and> (1 - unit_roundoff)\<^sup>2 * natural_ratio naturalWidth naturalHeight \<le> width g / height g
     \<and> width g / height g
           \<le> (1 + unit_roundoff) / (1 - unit_roundoff) * natural_ratio naturalWidth naturalHeight
     \<and> (width g = of_nat clientWidth \<and> left g = 0
            \<and> centred (top' g) (of_nat clientHeight) (height g)
         \<or> height g = of_nat clientHeight \<and> top' g = 0
            \<and> centred (left g) (of_nat clientWidth) (width g))"
proof -
  let ?u = unit_roundoff
  let ?W = "of_nat clientWidth :: rat" and ?H = "of_nat clientHeight :: rat"
  let ?R = "natural_ratio naturalWidth naturalHeight"
  let ?nr = "to_double (of_nat naturalWidth / of_nat naturalHeight)"
  let ?cr = "to_double (?W / ?H)"
  have u: "0 < ?u" "?u < 1" by (rule unit_roundoff_range)+
  have pos: "0 < ?W" "0 < ?H" using assms by simp_all
  have R: "0 < ?R" using assms by (simp add: natural_ratio_def)
  have R': "0 < (of_nat naturalWidth / of_nat naturalHeight :: rat)" using assms by simp
  have nr: "(1 - ?u) * ?R \<le> ?nr" "?nr \<le> (1 + ?u) * ?R"
    using to_double_bounds [OF R] by (simp_all add: natural_ratio_def)
  have nrpos: "0 < ?nr" using to_double_pos [OF R] by (simp add: natural_ratio_def)
  have WH: "0 < ?W / ?H" using pos by simp
  have cr: "(1 - ?u) * (?W / ?H) \<le> ?cr" "?cr \<le> (1 + ?u) * (?W / ?H)"
    by (rule to_double_bounds [OF WH])+
  have u12: "1 \<le> (1 + ?u)\<^sup>2"
    using u by (simp add: power2_eq_square algebra_simps)
  show ?thesis
  proof (cases "?cr < ?nr")
    case True
    let ?h = "to_double (?W / ?nr)"
    let ?g = "\<lparr> width = ?W, height = ?h,
                top' = to_double (to_double (?H - ?h) / 2), left = 0 \<rparr>"
    have x: "0 < ?W / ?nr" using pos nrpos by simp
    note h = to_double_bounds [OF x]
    note f = fill_width [OF u pos R nr cr(1) True h]
    have g: "handleResize clientWidth clientHeight naturalWidth naturalHeight = Some ?g"
      using assms True by (simp add: handleResize_def Let_def)
    have "?W * 1 \<le> ?W * (1 + ?u)\<^sup>2" using u12 pos(1) by (intro mult_left_mono) simp_all
    then have w: "?W \<le> (1 + ?u)\<^sup>2 * ?W" by (simp add: mult.commute)
    have hH: "?h \<le> ?H" using assms(1,3,4) R' True by (rule width_filled_height)
    have c: "centred (to_double (to_double (?H - ?h) / 2)) ?H ?h" by (rule centred_to_double)
    show ?thesis
      unfolding g using pos f(1,3,4) w hH c by simp
  next
    case False
    let ?w = "to_double (?H * ?nr)"
    let ?g = "\<lparr> width = ?w, height = ?H, top' = 0,
                left = to_double (to_double (?W - ?w) / 2) \<rparr>"
    have x: "0 < ?H * ?nr" using pos nrpos by simp
    note w = to_double_bounds [OF x]
    from False have le: "?nr \<le> ?cr" by simp
    note f = fill_height [OF u pos R nr cr(2) le w]
    have g: "handleResize clientWidth clientHeight naturalWidth naturalHeight = Some ?g"
      using assms False by (simp add: handleResize_def Let_def)
    have c: "centred (to_double (to_double (?W - ?w) / 2)) ?W ?w" by (rule centred_to_double)
    show ?thesis
      unfolding g using pos f c by simp
  qed
qed

text \<open>
  A container of 400 by 400 and an image of 800 by 600: the width is filled, the height
  is 300 and the rectangle starts 50 below the top.
\<close>

theorem render_geometry_example:
  "0 < (400 :: nat) \<and> (400 :: nat) < 2 ^ 53 \<and> 0 < (800 :: nat) \<and> (800 :: nat) < 2 ^ 53
   \<and> 0 < (600 :: nat) \<and> (600 :: nat) < 2 ^ 53
   \<and> handleResize 400 400 800 600
       = Some \<lparr> width = 400, height = 300, top' = 50, left = 0 \<rparr>
   \<and> (400 :: rat) \<le> (1 + unit_roundoff)\<^sup>2 * of_nat 400
   \<and> (300 :: rat) \<le> of_nat 400
   \<and> (1 - unit_roundoff)\<^sup>2 * natural_ratio 800 600 \<le> 400 / 300
   \<and> 400 / 300 \<le> (1 + unit_roundoff) / (1 - unit_roundoff) * natural_ratio 800 600
   \<and> centred 50 (of_nat 400) 300"
proof -
  have p: "0 < (400 :: nat)" "(400 :: nat) < 2 ^ 53" "0 < (800 :: nat)" "(800 :: nat) < 2 ^ 53"
    "0 < (600 :: nat)" "(600 :: nat) < 2 ^ 53" by simp_all
  from render_geometry [OF p(1,2) p(1,2) p(3,4) p(5,6)]
  obtain g where g: "handleResize 400 400 800 600 = Some g"
    and w: "width g \<le> (1 + unit_roundoff)\<^sup>2 * of_nat 400"
    and h: "height g \<le> of_nat 400"
    and lo: "(1 - unit_roundoff)\<^sup>2 * natural_ratio 800 600 \<le> width g / height g"
    and hi: "width g / height g \<le> (1 + unit_roundoff) / (1 - unit_roundoff) * natural_ratio 800 600"
    and c: "width g = of_nat 400 \<and> left g = 0 \<and> centred (top' g) (of_nat 400) (height g)
          \<or> height g = of_nat 400 \<and> top' g = 0 \<and> centred (left g) (of_nat 400) (width g)"
    by blast
  from g have e: "g = \<lparr> width = 400, height = 300, top' = 50, left = 0 \<rparr>"
    by (simp add: handleResize_fill_width)
  from c have c': "centred 50 (of_nat 400) 300" by (simp add: e)
  from w have w': "(400 :: rat) \<le> (1 + unit_roundoff)\<^sup>2 * of_nat 400" by (simp add: e)
  from h have h': "(300 :: rat) \<le> of_nat 400" by (simp add: e)
  from lo have lo': "(1 - unit_roundoff)\<^sup>2 * natural_ratio 800 600 \<le> 400 / 300"
    by (simp add: e)
  from hi have hi': "400 / 300 \<le> (1 + unit_roundoff) / (1 - unit_roundoff) * natural_ratio 800 600"
    by (simp add: e)
  show ?thesis
    by (intro conjI p handleResize_fill_width w' h' lo' hi' c')
qed

text \<open>
  The width can exceed the container's. A container and an image of 3 by 187 have the same
  ratio; \<open>187 * (3 / 187)\<close> is, in doubles, the double above 3, and \<open>left\<close> is negative.
\<close>

theorem render_geometry_counterexample:
  "handleResize 3 187 3 187
     = Some \<lparr> width = 3 + 1 / 2 ^ 51, height = 187, top' = 0, left = - (1 / 2 ^ 52) \<rparr>
   \<and> (of_nat 3 :: rat) < 3 + 1 / 2 ^ 51"
  by (simp add: handleResize_equal_ratio)

text \<open>
  C9. For a non-empty selection of \<open>N\<close> regions, the entries that the remove and the
  translate operation build are the numbered list of the selection: \<open>N\<close> entries, the
  \<open>i\<close>-th (from 0) being the number \<open>i + 1\<close>, a point and the \<open>i\<close>-th selected region;
  the prompt is the fixed instruction followed by these entries, one per line, and it is
  the prompt that the handler passes to the backend.
\<close>

theorem numbered_entries:
  assumes "selected \<noteq> []"
  shows "mapi (remove_entry toStr) selected = numbered_from 1 (remove_body toStr) selected
       \<and> mapi (translate_entry toStr) selected = numbered_from 1 (translate_body toStr) selected
       \<and> length (numbered_from 1 body selected) = length selected
       \<and> (\<forall>i<length selected.
             numbered_from 1 body selected ! i = digits (i + 1) @ ''. '' @ body (selected ! i))
       \<and> remove_prompt toStr selected =
           ''Remove the following objects from the image and inpaint their areas naturally to match the surroundings:''
           @ [CHR 0x0A] @ join [CHR 0x0A] (numbered_from 1 (remove_body toStr) selected)
       \<and> translate_prompt toStr selected =
           ''Translate the text in the following regions from Chinese to Korean. Then, replace the original text with the Korean translation. Ensure the new text fits naturally in the same location and matches the original style (font, color, size) as closely as possible.''
           @ [CHR 0x0A, CHR 0x0A] @ ''Here are the text regions to translate:'' @ [CHR 0x0A]
           @ join [CHR 0x0A] (numbered_from 1 (translate_body toStr) selected) @ [CHR 0x0A]
       \<and> (selectedObjects s = selected \<and> image s \<noteq> None \<longrightarrow>
            map_option request_prompt (snd (handleObjectAction toStr remove s))
              = Some (remove_prompt toStr selected)
          \<and> map_option request_prompt (snd (handleTranslate toStr s))
              = Some (translate_prompt toStr selected))"
proof -
  have a: "\<forall>i<length selected.
             numbered_from 1 body selected ! i = digits (i + 1) @ ''. '' @ body (selected ! i)"
    using nth_numbered_from [of _ selected 1 body] by (simp add: add.commute)
  have b: "remove_prompt toStr selected =
           ''Remove the following objects from the image and inpaint their areas naturally to match the surroundings:''
           @ [CHR 0x0A] @ join [CHR 0x0A] (numbered_from 1 (remove_body toStr) selected)"
    unfolding remove_prompt_def Let_def remove_entries by (rule refl)
  have c: "translate_prompt toStr selected =
           ''Translate the text in the following regions from Chinese to Korean. Then, replace the original text with the Korean translation. Ensure the new text fits naturally in the same location and matches the original style (font, color, size) as closely as possible.''
           @ [CHR 0x0A, CHR 0x0A] @ ''Here are the text regions to translate:'' @ [CHR 0x0A]
           @ join [CHR 0x0A] (numbered_from 1 (translate_body toStr) selected) @ [CHR 0x0A]"
    unfolding translate_prompt_def Let_def translate_entries by (rule refl)
  have d: "map_option request_prompt (snd (handleObjectAction toStr remove s))
              = Some (remove_prompt toStr selected)"
      and e: "map_option request_prompt (snd (handleTranslate toStr s))
              = Some (translate_prompt toStr selected)"
    if "selectedObjects s = selected" "image s \<noteq> None"
  proof -
    from that obtain img where img: "image s = Some img" by auto
    show "map_option request_prompt (snd (handleObjectAction toStr remove s))
              = Some (remove_prompt toStr selected)"
      using assms that(1)
      by (simp add: handleObjectAction_def handleGenerate_start_request [OF img remove_prompt_nonempty])
    show "map_option request_prompt (snd (handleTranslate toStr s))
              = Some (translate_prompt toStr selected)"
      using assms that(1)
      by (simp add: handleTranslate_def handleGenerate_start_request [OF img translate_prompt_nonempty])
  qed
  have f: "selectedObjects s = selected \<and> image s \<noteq> None \<longrightarrow>
            map_option request_prompt (snd (handleObjectAction toStr remove s))
              = Some (remove_prompt toStr selected)
          \<and> map_option request_prompt (snd (handleTranslate toStr s))
              = Some (translate_prompt toStr selected)"
    using d e by blast
  show ?thesis
    by (intro conjI remove_entries translate_entries length_numbered_from a b c f)
qed

text \<open>
  Two regions selected, the dog before the cat: the remove prompt lists the dog as entry 1
  and the cat as entry 2.
\<close>

theorem numbered_entries_example:
  "\<forall>toStr. [example_region2, example_region] \<noteq> []
     \<and> remove_prompt toStr [example_region2, example_region] =
         ''Remove the following objects from the image and inpaint their areas naturally to match the surroundings:''
         @ [CHR 0x0A] @ ''1. The object 'dog' located within bounding box [0.2500, 0.5000, 0.5000, 0.7500]''
         @ [CHR 0x0A] @ ''2. The object 'cat' located within bounding box [0.2000, 0.1000, 0.4000, 0.3000]''"
proof
  fix toStr
  have ne: "[example_region2, example_region] \<noteq> []" by simp
  have b1: "remove_body toStr example_region2
              = ''The object 'dog' located within bounding box [0.2500, 0.5000, 0.5000, 0.7500]''"
    by (simp add: remove_body_def bbox_literal_def example_region2_def toFixed_eval)
  have b2: "remove_body toStr example_region
              = ''The object 'cat' located within bounding box [0.2000, 0.1000, 0.4000, 0.3000]''"
    by (simp add: remove_body_def bbox_literal_def example_region_def toFixed_eval)
  have n: "numbered_from 1 (remove_body toStr) [example_region2, example_region]
             = [''1. '' @ remove_body toStr example_region2, ''2. '' @ remove_body toStr example_region]"
    by (simp add: digits_1 digits.simps [of "Suc (Suc 0)"] digit_char_def)
  from numbered_entries [OF ne, of toStr]
  have "remove_prompt toStr [example_region2, example_region] =
           ''Remove the following objects from the image and inpaint their areas naturally to match the surroundings:''
           @ [CHR 0x0A] @ join [CHR 0x0A] (numbered_from 1 (remove_body toStr) [example_region2, example_region])"
    by blast
  then have "remove_prompt toStr [example_region2, example_region] =
         ''Remove the following objects from the image and inpaint their areas naturally to match the surroundings:''
         @ [CHR 0x0A] @ ''1. The object 'dog' located within bounding box [0.2500, 0.5000, 0.5000, 0.7500]''
         @ [CHR 0x0A] @ ''2. The object 'cat' located within bounding box [0.2000, 0.1000, 0.4000, 0.3000]''"
    unfolding n b1 b2 by simp
  with ne show "[example_region2, example_region] \<noteq> []
     \<and> remove_prompt toStr [example_region2, example_region] =
         ''Remove the following objects from the image and inpaint their areas naturally to match the surroundings:''
         @ [CHR 0x0A] @ ''1. The object 'dog' located within bounding box [0.2500, 0.5000, 0.5000, 0.7500]''
         @ [CHR 0x0A] @ ''2. The object 'cat' located within bounding box [0.2000, 0.1000, 0.4000, 0.3000]''"
    by (intro conjI)
qed

text \<open>
  C10. For both detection calls: a response whose text parses to a JSON value other than
  \<open>null\<close> that has no \<open>objects\<close> property, or a falsy one, yields the empty region list.
\<close>

theorem missing_objects:
  assumes "response_text resp = Some t" "trim t \<noteq> []" "parse (trim t) = Some result"
    and "result \<noteq> JNull" "no_objects result"
  shows "detectObjects (\<lambda>req. Resolved resp) parse imageData type = Inr (JArray [])
       \<and> detectWatermarkText (\<lambda>req. Resolved resp) parse imageData type = Inr (JArray [])"
  by (simp add: detectObjects_def detectWatermarkText_def
      detection_try_no_objects [of resp t parse result, OF assms])

text \<open>The empty object, and the number 5.\<close>

theorem missing_objects_example:
  "trim ''{}'' \<noteq> [] \<and> example_parse (trim ''{}'') = Some (JObject [])
   \<and> JObject [] \<noteq> JNull \<and> no_objects (JObject [])
   \<and> detectObjects (text_answer ''{}'') example_parse (Some ''AAAA'') ''image/png''
        = Inr (JArray [])
   \<and> trim ''5'' \<noteq> [] \<and> example_parse (trim ''5'') = Some (JNumber (Finite 5))
   \<and> no_objects (JNumber (Finite 5))
   \<and> detectWatermarkText (text_answer ''5'') example_parse (Some ''AAAA'') ''image/png''
        = Inr (JArray [])"
proof -
  have a: "response_text \<lparr>response_text = Some ''{}''\<rparr> = Some ''{}''" by simp
  have b: "trim ''{}'' \<noteq> []" by (simp add: trim_examples)
  have c: "example_parse (trim ''{}'') = Some (JObject [])"
    by (simp add: trim_examples example_parse_def)
  have d: "JObject [] \<noteq> JNull" by simp
  have e: "no_objects (JObject [])" by simp
  have a': "response_text \<lparr>response_text = Some ''5''\<rparr> = Some ''5''" by simp
  have b': "trim ''5'' \<noteq> []" by (simp add: trim_examples)
  have c': "example_parse (trim ''5'') = Some (JNumber (Finite 5))"
    by (simp add: trim_examples example_parse_def)
  have d': "JNumber (Finite 5) \<noteq> JNull" by simp
  have e': "no_objects (JNumber (Finite 5))" by simp
  from missing_objects [of _ "''{}''" example_parse "JObject []", OF a b c d e]
  have f: "detectObjects (text_answer ''{}'') example_parse (Some ''AAAA'') ''image/png''
             = Inr (JArray [])"
    unfolding text_answer_def [abs_def] by (rule conjunct1)
  from missing_objects [of _ "''5''" example_parse "JNumber (Finite 5)", OF a' b' c' d' e']
  have f': "detectWatermarkText (text_answer ''5'') example_parse (Some ''AAAA'') ''image/png''
              = Inr (JArray [])"
    unfolding text_answer_def [abs_def] by (rule conjunct2)
  show ?thesis by (intro conjI b c d e f b' c' e' f')
qed

text \<open>
  The text \<open>null\<close> is valid JSON without an \<open>objects\<close> field; reading \<open>objects\<close> of
  \<open>null\<close> throws, and both calls answer with their error.
\<close>

theorem missing_objects_counterexample:
  "example_parse (trim '' null '') = Some JNull
   \<and> detectObjects (text_answer '' null '') example_parse (Some ''AAAA'') ''image/png''
        = Inl (Error detect_objects_failed)
   \<and> detectWatermarkText (text_answer '' null '') example_parse (Some ''AAAA'') ''image/png''
        = Inl (Error detect_text_failed)"
  by (simp add: detectObjects_def detectWatermarkText_def detection_try_def trim_examples
      example_parse_def text_answer_def)

end
